theory Spec2Isabelle
  imports Complex_Main "HOL-Library.Multiset"
begin

section \<open>Python values used by \<^verbatim>\<open>dss_server.py\<close>\<close>

text \<open>
  The server computes with Python floats. A finite float is modelled by the real number
  it denotes, and \<^verbatim>\<open>float('inf')\<close> by a constructor of its own. Comparisons of floats
  are exact. The operations of \<^verbatim>\<open>haversine\<close> are rounded as IEEE 754 binary64
  arithmetic rounds them, because there the rounding decides whether \<^verbatim>\<open>math.sqrt\<close>
  raises; the sums and quotients of the centroid are the exact ones, rounding changes
  only their last digits. Exceptions are values: a function that can raise returns
  \<open>py_error + 'a\<close>.
\<close>

datatype py_error = IndexError | TypeError | ValueError

datatype pyfloat = Finite real | PosInf

definition bind_err :: "py_error + 'a \<Rightarrow> ('a \<Rightarrow> py_error + 'b) \<Rightarrow> py_error + 'b" where
  "bind_err m f = (case m of Inl e \<Rightarrow> Inl e | Inr x \<Rightarrow> f x)"

text \<open>
  Rounding to the nearest integer, a tie going to the even one; \<open>pow2 e\<close> is \<open>2\<close> to
  the power \<open>e\<close>. \<open>rd x\<close> is the binary64 number nearest to \<open>x\<close>: 53 significant
  bits above the smallest exponent, multiples of \<open>2\<close> to the \<open>-1074\<close> below it, ties to
  the even significand. Overflow to infinity is not modelled; the values of
  \<^verbatim>\<open>haversine\<close> stay far from it.
\<close>

definition round_half_even :: "real \<Rightarrow> int" where
  "round_half_even y =
     (let f = \<lfloor>y\<rfloor>; r = y - of_int f
      in if r < 1 / 2 then f else if 1 / 2 < r then f + 1 else if even f then f else f + 1)"

definition pow2 :: "int \<Rightarrow> real" where
  "pow2 e = (if 0 \<le> e then 2 ^ nat e else 1 / 2 ^ nat (- e))"

definition rd :: "real \<Rightarrow> real" where
  "rd x =
     (if x = 0 then 0
      else (let e = max (\<lfloor>log 2 \<bar>x\<bar>\<rfloor> - 52) (- 1074)
            in of_int (round_half_even (x / pow2 e)) * pow2 e))"

text \<open>
  The float operations \<^verbatim>\<open>x + y\<close>, \<^verbatim>\<open>x - y\<close>, \<^verbatim>\<open>x * y\<close>, \<^verbatim>\<open>x / y\<close> and \<^verbatim>\<open>x ** 2\<close>
  round the exact result. \<^verbatim>\<open>math.sin\<close>, \<^verbatim>\<open>math.cos\<close> and \<^verbatim>\<open>math.atan2\<close> are the
  functions of the C library, taken as correctly rounded, as is the square \<^verbatim>\<open>x ** 2\<close>.
\<close>

definition fadd :: "real \<Rightarrow> real \<Rightarrow> real" where
  "fadd x y = rd (x + y)"

definition fsub :: "real \<Rightarrow> real \<Rightarrow> real" where
  "fsub x y = rd (x - y)"

definition fmul :: "real \<Rightarrow> real \<Rightarrow> real" where
  "fmul x y = rd (x * y)"

definition fdiv :: "real \<Rightarrow> real \<Rightarrow> real" where
  "fdiv x y = rd (x / y)"

definition fsquare :: "real \<Rightarrow> real" where
  "fsquare x = rd (x * x)"

definition fsin :: "real \<Rightarrow> real" where
  "fsin x = rd (sin x)"

definition fcos :: "real \<Rightarrow> real" where
  "fcos x = rd (cos x)"

text \<open>\<^verbatim>\<open>math.isinf(x)\<close>, \<^verbatim>\<open>x > c\<close> and \<^verbatim>\<open>d < x\<close> for a float \<open>x\<close> that may be infinite.\<close>

fun isinf :: "pyfloat \<Rightarrow> bool" where
  "isinf PosInf = True"
| "isinf (Finite _) = False"

fun float_gt :: "pyfloat \<Rightarrow> real \<Rightarrow> bool" where
  "float_gt PosInf c = True"
| "float_gt (Finite x) c = (c < x)"

fun lt_float :: "real \<Rightarrow> pyfloat \<Rightarrow> bool" where
  "lt_float d PosInf = True"
| "lt_float d (Finite x) = (d < x)"

text \<open>
  The coordinates of a GeoJSON geometry, as \<^verbatim>\<open>json.load\<close> returns them: numbers and
  nested lists.
\<close>

datatype json = Num real | Lst "json list"

fun is_list :: "json \<Rightarrow> bool" where
  "is_list (Lst _) = True"
| "is_list (Num _) = False"

text \<open>\<^verbatim>\<open>x[0]\<close>: a number is not subscriptable, an empty list has no first element.\<close>

fun subscript0 :: "json \<Rightarrow> py_error + json" where
  "subscript0 (Num _) = Inl TypeError"
| "subscript0 (Lst []) = Inl IndexError"
| "subscript0 (Lst (x # _)) = Inr x"

text \<open>Truthiness of a value in an \<^verbatim>\<open>if\<close>: a non-zero number, a non-empty list.\<close>

fun truthy :: "json \<Rightarrow> bool" where
  "truthy (Num x) = (x \<noteq> 0)"
| "truthy (Lst xs) = (xs \<noteq> [])"

text \<open>
  A \<^verbatim>\<open>for\<close> loop whose body updates an accumulator and may raise: the first
  exception ends the loop. Iterating over a number raises \<^verbatim>\<open>TypeError\<close>.
\<close>

fun fold_err :: "('a \<Rightarrow> 's \<Rightarrow> py_error + 's) \<Rightarrow> 'a list \<Rightarrow> 's \<Rightarrow> py_error + 's" where
  "fold_err f [] s = Inr s"
| "fold_err f (x # xs) s = (case f x s of Inl e \<Rightarrow> Inl e | Inr s' \<Rightarrow> fold_err f xs s')"

fun for_each :: "(json \<Rightarrow> 's \<Rightarrow> py_error + 's) \<Rightarrow> json \<Rightarrow> 's \<Rightarrow> py_error + 's" where
  "for_each f (Num _) s = Inl TypeError"
| "for_each f (Lst xs) s = fold_err f xs s"

section \<open>\<^verbatim>\<open>find_polygon_centroid\<close>\<close>

text \<open>
  The accumulator is \<open>(lon_sum, lat_sum, num_points)\<close>. \<open>add_point\<close> is the body of
  \<^verbatim>\<open>for lon, lat in ring\<close>: unpacking a number raises \<^verbatim>\<open>TypeError\<close>, unpacking a
  list that has not exactly two elements raises \<^verbatim>\<open>ValueError\<close>, and adding a list to
  a running sum raises \<^verbatim>\<open>TypeError\<close>.
\<close>

type_synonym totals = "real \<times> real \<times> nat"

fun add_point :: "json \<Rightarrow> totals \<Rightarrow> py_error + totals" where
  "add_point (Num _) s = Inl TypeError"
| "add_point (Lst [Num lon, Num lat]) (lon_sum, lat_sum, num_points) =
     Inr (lon_sum + lon, lat_sum + lat, num_points + 1)"
| "add_point (Lst [_, _]) s = Inl TypeError"
| "add_point (Lst _) s = Inl ValueError"

definition add_ring :: "json \<Rightarrow> totals \<Rightarrow> py_error + totals" where
  "add_ring ring s = for_each add_point ring s"

definition add_part :: "json \<Rightarrow> totals \<Rightarrow> py_error + totals" where
  "add_part part s = for_each add_ring part s"

text \<open>
  The result \<^verbatim>\<open>(lon, lat)\<close> is \<open>Some (lon, lat)\<close> and \<^verbatim>\<open>(None, None)\<close> is \<open>None\<close>.
  The probe \<^verbatim>\<open>coords[0][0][0]\<close> is evaluated before either loop runs.
\<close>

definition find_polygon_centroid :: "json \<Rightarrow> py_error + (real \<times> real) option" where
  "find_polygon_centroid coords =
     bind_err (subscript0 coords) (\<lambda>c0.
     bind_err (subscript0 c0) (\<lambda>c00.
     bind_err (subscript0 c00) (\<lambda>c000.
     bind_err (if is_list c000 then for_each add_part coords (0, 0, 0)
               else for_each add_ring coords (0, 0, 0))
       (\<lambda>(lon_sum, lat_sum, num_points).
          if num_points > 0
          then Inr (Some (lon_sum / real num_points, lat_sum / real num_points))
          else Inr None))))"

section \<open>\<^verbatim>\<open>haversine\<close>\<close>

text \<open>
  \<^verbatim>\<open>math.radians(x)\<close> multiplies by the constant \<^verbatim>\<open>pi / 180.0\<close>, where \<^verbatim>\<open>pi\<close> is
  the binary64 number nearest to \<open>pi\<close>, \<open>884279719003555 / 2 ^ 48\<close>.
\<close>

definition pi_double :: real where
  "pi_double = 884279719003555 / 2 ^ 48"

definition deg_to_rad :: real where
  "deg_to_rad = fdiv pi_double 180"

definition radians :: "real \<Rightarrow> real" where
  "radians x = fmul x deg_to_rad"

text \<open>\<^verbatim>\<open>math.atan2(y, x)\<close>, the angle of the point \<open>(x, y)\<close> in \<open>(-pi, pi]\<close>, rounded.\<close>

definition atan2 :: "real \<Rightarrow> real \<Rightarrow> real" where
  "atan2 y x =
     (if 0 < x then arctan (y / x)
      else if x < 0 then (if 0 \<le> y then arctan (y / x) + pi else arctan (y / x) - pi)
      else if 0 < y then pi / 2
      else if y < 0 then - (pi / 2)
      else 0)"

definition fatan2 :: "real \<Rightarrow> real \<Rightarrow> real" where
  "fatan2 y x = rd (atan2 y x)"

text \<open>\<^verbatim>\<open>math.sqrt\<close> raises \<^verbatim>\<open>ValueError\<close> (math domain error) on a negative argument.\<close>

definition py_sqrt :: "real \<Rightarrow> py_error + real" where
  "py_sqrt x = (if x < 0 then Inl ValueError else Inr (rd (sqrt x)))"

text \<open>
  The term \<open>a\<close> of the formula, from the four angles in degrees, with the operations
  in the order in which Python evaluates them.
\<close>

definition haversine_a :: "real \<Rightarrow> real \<Rightarrow> real \<Rightarrow> real \<Rightarrow> real" where
  "haversine_a lon1 lat1 lon2 lat2 =
     (let dlon = fsub (radians lon2) (radians lon1);
          dlat = fsub (radians lat2) (radians lat1)
      in fadd (fsquare (fsin (fdiv dlat 2)))
              (fmul (fmul (fcos (radians lat1)) (fcos (radians lat2)))
                    (fsquare (fsin (fdiv dlon 2)))))"

definition haversine :: "real \<Rightarrow> real \<Rightarrow> real \<Rightarrow> real \<Rightarrow> py_error + real" where
  "haversine lon1 lat1 lon2 lat2 =
     (let R = 6371;
          a = haversine_a lon1 lat1 lon2 lat2
      in bind_err (py_sqrt a) (\<lambda>sa.
         bind_err (py_sqrt (fsub 1 a)) (\<lambda>sb.
         Inr (fmul R (fmul 2 (fatan2 sa sb))))))"

section \<open>The loaded data and \<^verbatim>\<open>get_nearest_water_distance\<close>\<close>

text \<open>
  The dictionaries stored by \<^verbatim>\<open>load_data\<close>. The fields are the keys of the source,
  prefixed because two of the dictionaries share \<^verbatim>\<open>lon\<close> and \<^verbatim>\<open>lat\<close>. The globals
  \<^verbatim>\<open>fra_data\<close> and \<^verbatim>\<open>water_body_locations\<close> are passed as arguments.
\<close>

record water_body =
  wb_lon :: real
  wb_lat :: real

record village_info =
  vi_village :: string
  vi_state :: string
  vi_lon :: real
  vi_lat :: real

type_synonym fra_data = "string \<rightharpoonup> village_info"

text \<open>
  The body of the loop over the features of a water file, for a feature whose geometry
  is present and has the coordinates \<open>coords\<close>: nothing but \<^verbatim>\<open>FileNotFoundError\<close> is
  caught around it, so an exception of the centroid leaves \<^verbatim>\<open>load_data\<close>.
\<close>

definition load_water_feature :: "json \<Rightarrow> water_body list \<Rightarrow> py_error + water_body list" where
  "load_water_feature coords water_body_locations =
     (if truthy coords
      then bind_err (find_polygon_centroid coords) (\<lambda>r.
             case r of
               None \<Rightarrow> Inr water_body_locations
             | Some (lon, lat) \<Rightarrow>
                 Inr (water_body_locations @ [\<lparr>wb_lon = lon, wb_lat = lat\<rparr>]))
      else Inr water_body_locations)"

text \<open>The scan, with \<open>min_distance\<close> as the loop's state; it starts at infinity.\<close>

fun nearest_loop :: "real \<Rightarrow> real \<Rightarrow> water_body list \<Rightarrow> pyfloat \<Rightarrow> py_error + pyfloat" where
  "nearest_loop lon lat [] min_distance = Inr min_distance"
| "nearest_loop lon lat (water_body # rest) min_distance =
     bind_err (haversine lon lat (wb_lon water_body) (wb_lat water_body)) (\<lambda>dist.
       nearest_loop lon lat rest
         (if lt_float dist min_distance then Finite dist else min_distance))"

definition get_nearest_water_distance :: "real \<Rightarrow> real \<Rightarrow> water_body list \<Rightarrow> py_error + pyfloat" where
  "get_nearest_water_distance lon lat water_body_locations =
     nearest_loop lon lat water_body_locations PosInf"

section \<open>\<^verbatim>\<open>generate_water_recommendation\<close>\<close>

text \<open>
  The format \<^verbatim>\<open>{water_dist:.2f}\<close>: the decimal numeral with two digits after the point
  that is nearest to the value, a tie going to the even last digit.
\<close>

definition digit_char :: "nat \<Rightarrow> char" where
  "digit_char n = ''0123456789'' ! (n mod 10)"

fun show_nat :: "nat \<Rightarrow> string" where
  "show_nat n = (if n < 10 then [digit_char n] else show_nat (n div 10) @ [digit_char n])"

definition fmt2 :: "real \<Rightarrow> string" where
  "fmt2 x =
     (let n = nat (round_half_even (\<bar>x\<bar> * 100))
      in (if x < 0 then ''-'' else []) @ show_nat (n div 100) @ ''.'' @
         [digit_char (n div 10), digit_char n])"

text \<open>An infinite float is formatted as \<^verbatim>\<open>inf\<close>.\<close>

fun format_2f :: "pyfloat \<Rightarrow> string" where
  "format_2f PosInf = ''inf''"
| "format_2f (Finite x) = fmt2 x"

text \<open>The characters of the messages outside ASCII, in UTF-8, and the line break.\<close>

definition seedling :: string where
  "seedling = [CHR 0xF0, CHR 0x9F, CHR 0x8C, CHR 0xB1]"

definition warning_sign :: string where
  "warning_sign = [CHR 0xE2, CHR 0x9A, CHR 0xA0, CHR 0xEF, CHR 0xB8, CHR 0x8F]"

definition droplet :: string where
  "droplet = [CHR 0xF0, CHR 0x9F, CHR 0x92, CHR 0xA7]"

definition newline :: string where
  "newline = [CHR 0x0A]"

text \<open>The five messages of the source, one per branch.\<close>

definition no_data_msg :: string where
  "no_data_msg =
     ''Data not available for this village. Recommend field survey. '' @ seedling"

definition critical_msg :: string where
  "critical_msg =
     ''No water source nearby. Nearest water body is over 1000 km away. '' @ warning_sign @
     newline @
     ''Urgent intervention needed to establish sustainable water supply. '' @
     ''Recommend Jal Jeevan Mission priority for infrastructure development.''"

definition severe_msg :: "pyfloat \<Rightarrow> string" where
  "severe_msg water_dist =
     ''No water source nearby. Nearest water body is '' @ format_2f water_dist @ '' km away. '' @
     warning_sign @ newline @
     ''Consider water harvesting and supply schemes under Jal Jeevan Mission.''"

definition moderate_msg :: "pyfloat \<Rightarrow> string" where
  "moderate_msg water_dist =
     ''Water source nearby but at '' @ format_2f water_dist @ '' km distance. '' @ droplet @
     newline @
     ''Recommend improving water access infrastructure and monitoring water quality.''"

definition adequate_msg :: "pyfloat \<Rightarrow> string" where
  "adequate_msg water_dist =
     ''Water source very close at '' @ format_2f water_dist @ '' km. '' @ droplet @ newline @
     ''Focus on maintenance of existing water resources and community water management.''"

text \<open>The chain of comparisons on \<open>water_dist\<close>, in the order of the source.\<close>

definition recommendation_text :: "pyfloat \<Rightarrow> string" where
  "recommendation_text water_dist =
     (if isinf water_dist \<or> float_gt water_dist 1000 then critical_msg
      else if float_gt water_dist 100 then severe_msg water_dist
      else if float_gt water_dist 10 then moderate_msg water_dist
      else adequate_msg water_dist)"

text \<open>
  The value of \<^verbatim>\<open>rec.get("name")\<close>: \<^verbatim>\<open>None\<close> when the record has no name, a string,
  a number, a boolean, or a list or object, which cannot be hashed. The keys of
  \<^verbatim>\<open>fra_data\<close> are strings, so \<^verbatim>\<open>fra_data.get\<close> finds nothing for \<^verbatim>\<open>None\<close>, a
  number or a boolean, and raises \<^verbatim>\<open>TypeError\<close> for a list or object.
\<close>

datatype py_name = NoName | Name string | Number real | Boolean bool | Unhashable

fun fra_get :: "fra_data \<Rightarrow> py_name \<Rightarrow> py_error + village_info option" where
  "fra_get fra (Name n) = Inr (fra n)"
| "fra_get fra Unhashable = Inl TypeError"
| "fra_get fra _ = Inr None"

text \<open>
  The second component of the result: the string \<^verbatim>\<open>"N/A"\<close> or the float
  \<open>water_dist\<close>.
\<close>

datatype distance_field = NA | Distance pyfloat

definition generate_water_recommendation ::
  "fra_data \<Rightarrow> water_body list \<Rightarrow> py_name \<Rightarrow> py_error + (string \<times> distance_field)" where
  "generate_water_recommendation fra water_body_locations village_name =
     bind_err (fra_get fra village_name) (\<lambda>found.
       case found of
         None \<Rightarrow> Inr (no_data_msg, NA)
       | Some village_info \<Rightarrow>
           bind_err
             (get_nearest_water_distance (vi_lon village_info) (vi_lat village_info)
                water_body_locations)
             (\<lambda>water_dist. Inr (recommendation_text water_dist, Distance water_dist)))"

section \<open>\<^verbatim>\<open>analyze\<close>\<close>

text \<open>
  The request is the list under \<^verbatim>\<open>villages\<close>, each record given by its \<^verbatim>\<open>name\<close>.
  The handler catches every exception of the loop and answers with the error status.
\<close>

record result =
  village :: py_name
  recommendation :: string
  distance_to_water :: distance_field

datatype response = Success "result list" | Failure py_error

fun analyze_loop ::
  "fra_data \<Rightarrow> water_body list \<Rightarrow> py_name list \<Rightarrow> result list \<Rightarrow> py_error + result list" where
  "analyze_loop fra wbl [] results = Inr results"
| "analyze_loop fra wbl (name # recs) results =
     bind_err (generate_water_recommendation fra wbl name) (\<lambda>(rec_text, dist).
       analyze_loop fra wbl recs
         (results @ [\<lparr>village = name, recommendation = rec_text, distance_to_water = dist\<rparr>]))"

definition analyze :: "fra_data \<Rightarrow> water_body list \<Rightarrow> py_name list \<Rightarrow> response" where
  "analyze fra wbl villages =
     (case analyze_loop fra wbl villages [] of
        Inl e \<Rightarrow> Failure e
      | Inr results \<Rightarrow> Success results)"

section \<open>GeoJSON geometries as coordinate values\<close>

text \<open>
  The coordinates of a well-formed geometry, built from its vertices: a position is the
  list \<^verbatim>\<open>[lon, lat]\<close>, a ring a list of positions, a Polygon a list of rings and a
  MultiPolygon a list of Polygons. \<open>vertex_mean\<close> is the arithmetic mean of the
  longitudes and of the latitudes of a list of vertices.
\<close>

definition point_json :: "real \<times> real \<Rightarrow> json" where
  "point_json p = Lst [Num (fst p), Num (snd p)]"

definition ring_json :: "(real \<times> real) list \<Rightarrow> json" where
  "ring_json ps = Lst (map point_json ps)"

definition polygon_json :: "(real \<times> real) list list \<Rightarrow> json" where
  "polygon_json rings = Lst (map ring_json rings)"

definition multipolygon_json :: "(real \<times> real) list list list \<Rightarrow> json" where
  "multipolygon_json parts = Lst (map polygon_json parts)"

definition vertex_mean :: "(real \<times> real) list \<Rightarrow> real \<times> real" where
  "vertex_mean ps =
     (sum_list (map fst ps) / real (length ps), sum_list (map snd ps) / real (length ps))"

section \<open>Example data\<close>

text \<open>
  A registered village and the square of the example polygon, for concrete instances;
  and a village and a water body that lie opposite each other on the globe, both with
  coordinates in range.
\<close>

definition rampur :: village_info where
  "rampur = \<lparr>vi_village = ''Rampur'', vi_state = ''Odisha'', vi_lon = 85, vi_lat = 20\<rparr>"

definition square :: "(real \<times> real) list" where
  "square = [(0, 0), (0, 2), (2, 2), (2, 0)]"

definition far_village :: village_info where
  "far_village = \<lparr>vi_village = ''Far'', vi_state = ''Odisha'', vi_lon = - 90, vi_lat = - 2.5\<rparr>"

definition far_water :: water_body where
  "far_water = \<lparr>wb_lon = 90, wb_lat = 2.5\<rparr>"

section \<open>Polynomials for the sine and the cosine\<close>

text \<open>
  The Taylor polynomials of the sine and the cosine used to enclose their values at
  the two angles of the example: \<open>x0\<close> is \<^verbatim>\<open>math.radians(2.5)\<close> and \<open>y0\<close> is
  \<^verbatim>\<open>math.radians(90)\<close>.
\<close>

definition sin_poly12 :: "real \<Rightarrow> real" where
  "sin_poly12 x = x - x ^ 3 / 6 + x ^ 5 / 120 - x ^ 7 / 5040 + x ^ 9 / 362880 - x ^ 11 / 39916800"

definition cos_poly12 :: "real \<Rightarrow> real" where
  "cos_poly12 x = 1 - x ^ 2 / 2 + x ^ 4 / 24 - x ^ 6 / 720 + x ^ 8 / 40320 - x ^ 10 / 3628800"

definition cos_poly18 :: "real \<Rightarrow> real" where
  "cos_poly18 x = 1 - x ^ 2 / 2 + x ^ 4 / 24 - x ^ 6 / 720 + x ^ 8 / 40320 - x ^ 10 / 3628800 + x ^ 12 / 479001600 - x ^ 14 / 87178291200 + x ^ 16 / 20922789888000"

definition x0 :: real where
  "x0 = 6288211335136391 / 2 ^ 57"

definition y0 :: real where
  "y0 = 884279719003555 / 2 ^ 49"

declare show_nat.simps [simp del]

section \<open>Rounding\<close>

text \<open>
  Rounding is odd, leaves a binary64 number as it is, and is decided by the interval
  between the two neighbouring midpoints in which the exact value lies.
\<close>

lemma pow2_powr: "pow2 e = 2 powr (of_int e)"
  by (simp add: pow2_def powr_int)

lemma pow2_pos: "0 < pow2 e"
  by (simp add: pow2_def)

lemma round_half_even_eq:
  assumes "of_int k - 1 / 2 < y" and "y < of_int k + 1 / 2"
  shows "round_half_even y = k"
proof (cases "y < of_int k")
  case True
  with assms have f: "\<lfloor>y\<rfloor> = k - 1" by (intro floor_unique) auto
  show ?thesis using assms True by (simp add: round_half_even_def Let_def f)
next
  case False
  with assms have f: "\<lfloor>y\<rfloor> = k" by (intro floor_unique) auto
  show ?thesis using assms False by (simp add: round_half_even_def Let_def f)
qed

lemma round_half_even_int: "round_half_even (of_int k) = k"
  by (rule round_half_even_eq) simp_all

lemma round_half_even_minus: "round_half_even (- y) = - round_half_even y"
proof -
  define f where "f = \<lfloor>y\<rfloor>"
  define r where "r = y - of_int f"
  have r: "0 \<le> r" "r < 1" and y: "y = of_int f + r"
    unfolding r_def f_def by linarith+
  consider "r = 0" | "0 < r" "r < 1 / 2" | "r = 1 / 2" | "1 / 2 < r" using r by linarith
  then show ?thesis
  proof cases
    case 1
    then have "y = of_int f" using y by simp
    then show ?thesis by (simp add: round_half_even_int flip: of_int_minus)
  next
    case 2
    have a: "round_half_even y = f" by (rule round_half_even_eq) (use 2 y in auto)
    have "round_half_even (- y) = - f" by (rule round_half_even_eq) (use 2 y in auto)
    with a show ?thesis by simp
  next
    case 3
    have fy: "\<lfloor>y\<rfloor> = f" by (simp add: f_def)
    have fm: "\<lfloor>- y\<rfloor> = - f - 1" using 3 y by (intro floor_unique) auto
    have "y - of_int f = 1 / 2" using 3 y by simp
    then have a: "round_half_even y = (if even f then f else f + 1)"
      by (simp add: round_half_even_def Let_def fy)
    have "- y - of_int (- f - 1) = 1 / 2" using 3 y by simp
    then have b: "round_half_even (- y) = (if even (- f - 1) then - f - 1 else - f)"
      by (simp add: round_half_even_def Let_def fm)
    show ?thesis unfolding a b by auto
  next
    case 4
    have a: "round_half_even y = f + 1" by (rule round_half_even_eq) (use 4 r y in auto)
    have "round_half_even (- y) = - (f + 1)" by (rule round_half_even_eq) (use 4 r y in auto)
    with a show ?thesis by simp
  qed
qed

lemma rd_minus: "rd (- x) = - rd x"
  by (simp add: rd_def Let_def round_half_even_minus)

lemma rd_eval:
  assumes "pow2 (e + 52) \<le> \<bar>x\<bar>" and "\<bar>x\<bar> < pow2 (e + 53)" and "- 1074 \<le> e"
  shows "rd x = of_int (round_half_even (x / pow2 e)) * pow2 e"
proof -
  have pos: "0 < \<bar>x\<bar>" using assms(1) pow2_pos [of "e + 52"] by linarith
  have "\<lfloor>log 2 \<bar>x\<bar>\<rfloor> = e + 52"
    using assms(1,2) pos by (subst floor_log_eq_powr_iff) (simp_all add: pow2_powr add.commute add.assoc)
  then show ?thesis using pos assms(3) by (simp add: rd_def Let_def max_def)
qed

lemma rd_interval:
  assumes e: "- 1074 \<le> e" and k: "2 ^ 52 < k" "k < 2 ^ 53"
    and lo: "(of_int k - 1 / 2) * pow2 e < x" and hi: "x < (of_int k + 1 / 2) * pow2 e"
  shows "rd x = of_int k * pow2 e"
proof -
  have p: "0 < pow2 e" by (rule pow2_pos)
  have s52: "pow2 (e + 52) = 2 ^ 52 * pow2 e" and s53: "pow2 (e + 53) = 2 ^ 53 * pow2 e"
    by (simp_all add: pow2_powr powr_add)
  have k52: "(2::real) ^ 52 + 1 \<le> of_int k"
  proof -
    from k(1) have "2 ^ 52 + 1 \<le> k" by linarith
    then have "real_of_int (2 ^ 52 + 1) \<le> of_int k" by (rule of_int_le_iff [THEN iffD2])
    then show ?thesis by simp
  qed
  have k53: "of_int k + 1 \<le> (2::real) ^ 53"
  proof -
    from k(2) have "k + 1 \<le> 2 ^ 53" by linarith
    then have "real_of_int (k + 1) \<le> of_int (2 ^ 53)" by (rule of_int_le_iff [THEN iffD2])
    then show ?thesis by simp
  qed
  have xpos: "0 < x"
  proof -
    have "0 < (of_int k - 1 / 2) * pow2 e" using k52 p by (intro mult_pos_pos) auto
    with lo show ?thesis by linarith
  qed
  have l: "pow2 (e + 52) \<le> \<bar>x\<bar>"
  proof -
    have "2 ^ 52 * pow2 e \<le> (of_int k - 1 / 2) * pow2 e"
      using k52 p by (intro mult_right_mono) auto
    with lo xpos show ?thesis unfolding s52 by linarith
  qed
  have h: "\<bar>x\<bar> < pow2 (e + 53)"
  proof -
    have "(of_int k + 1 / 2) * pow2 e \<le> 2 ^ 53 * pow2 e"
      using k53 p by (intro mult_right_mono) auto
    with hi xpos show ?thesis unfolding s53 by linarith
  qed
  have "round_half_even (x / pow2 e) = k"
  proof (rule round_half_even_eq)
    show "of_int k - 1 / 2 < x / pow2 e" using lo p by (simp add: pos_less_divide_eq)
    show "x / pow2 e < of_int k + 1 / 2" using hi p by (simp add: pos_divide_less_eq)
  qed
  then show ?thesis using rd_eval [OF l h e] by simp
qed

lemma rd_0: "rd 0 = 0" by (simp add: rd_def)

lemma rd_1: "rd 1 = 1"
proof -
  have "rd 1 = of_int (round_half_even (1 / pow2 (- 52))) * pow2 (- 52)"
    by (rule rd_eval) (simp_all add: pow2_def)
  also have "1 / pow2 (- 52) = of_int (2 ^ 52)" by (simp add: pow2_def)
  finally show ?thesis by (simp only: round_half_even_int) (simp add: pow2_def)
qed

lemma rd_exact:
  assumes e: "- 1074 \<le> e" and k: "2 ^ 52 \<le> \<bar>k\<bar>" "\<bar>k\<bar> < 2 ^ 53"
  shows "rd (of_int k * pow2 e) = of_int k * pow2 e"
proof -
  have p: "0 < pow2 e" by (rule pow2_pos)
  have s52: "pow2 (e + 52) = 2 ^ 52 * pow2 e" and s53: "pow2 (e + 53) = 2 ^ 53 * pow2 e"
    by (simp_all add: pow2_powr powr_add)
  have a: "\<bar>of_int k * pow2 e\<bar> = \<bar>of_int k\<bar> * pow2 e" using p by (simp add: abs_mult)
  have k52: "(2::real) ^ 52 \<le> \<bar>of_int k\<bar>"
  proof -
    from k(1) have "real_of_int (2 ^ 52) \<le> of_int \<bar>k\<bar>" by (rule of_int_le_iff [THEN iffD2])
    then show ?thesis by simp
  qed
  have k53: "\<bar>of_int k\<bar> < (2::real) ^ 53"
  proof -
    from k(2) have "real_of_int \<bar>k\<bar> < of_int (2 ^ 53)" by (rule of_int_less_iff [THEN iffD2])
    then show ?thesis by simp
  qed
  have l: "pow2 (e + 52) \<le> \<bar>of_int k * pow2 e\<bar>"
    unfolding a s52 using k52 p by (intro mult_right_mono) auto
  have h: "\<bar>of_int k * pow2 e\<bar> < pow2 (e + 53)"
    unfolding a s53 using k53 p by (intro mult_strict_right_mono) auto
  have "of_int k * pow2 e / pow2 e = of_int k" using p by simp
  then show ?thesis using rd_eval [OF l h e] by (simp add: round_half_even_int)
qed

lemma rd_one_below:
  assumes "1 - 1 / 2 ^ 54 < x" and "x \<le> 1"
  shows "rd x = 1"
proof (cases "x = 1")
  case True
  then show ?thesis by (simp add: rd_1)
next
  case False
  with assms have x: "x < 1" by simp
  have l: "pow2 (- 53 + 52) \<le> \<bar>x\<bar>" using assms(1) by (simp add: pow2_def)
  have h: "\<bar>x\<bar> < pow2 (- 53 + 53)" using assms(1) x by (simp add: pow2_def)
  have "round_half_even (x / pow2 (- 53)) = 2 ^ 53"
  proof (rule round_half_even_eq)
    show "of_int (2 ^ 53) - 1 / 2 < x / pow2 (- 53)" using assms(1) by (simp add: pow2_def field_simps)
    show "x / pow2 (- 53) < of_int (2 ^ 53) + 1 / 2" using x by (simp add: pow2_def field_simps)
  qed
  then show ?thesis using rd_eval [OF l h] by (simp add: pow2_def)
qed

section \<open>Enclosures of the sine and the cosine\<close>

text \<open>
  The Taylor polynomials with their remainders enclose \<open>sin x0\<close> and \<open>cos x0\<close> between
  the midpoints around one binary64 number each, and \<open>sin y0\<close> between
  \<open>1 - 2 ^ - 54\<close> and \<open>1\<close>.
\<close>

lemma sum_upto12:
  fixes f :: "nat \<Rightarrow> real"
  shows "(\<Sum>m<12. f m) = f 0 + f 1 + f 2 + f 3 + f 4 + f 5 + f 6 + f 7 + f 8 + f 9 + f 10 + f 11"
  by (simp add: eval_nat_numeral)

lemma sin_coeffs12:
  "sin_coeff 0 = 0"
  "sin_coeff 1 = 1 / 1"
  "sin_coeff 2 = 0"
  "sin_coeff 3 = - 1 / 6"
  "sin_coeff 4 = 0"
  "sin_coeff 5 = 1 / 120"
  "sin_coeff 6 = 0"
  "sin_coeff 7 = - 1 / 5040"
  "sin_coeff 8 = 0"
  "sin_coeff 9 = 1 / 362880"
  "sin_coeff 10 = 0"
  "sin_coeff 11 = - 1 / 39916800"
  by (simp_all add: sin_coeff_def fact_numeral)

lemma cos_coeffs12:
  "cos_coeff 0 = 1 / 1"
  "cos_coeff 1 = 0"
  "cos_coeff 2 = - 1 / 2"
  "cos_coeff 3 = 0"
  "cos_coeff 4 = 1 / 24"
  "cos_coeff 5 = 0"
  "cos_coeff 6 = - 1 / 720"
  "cos_coeff 7 = 0"
  "cos_coeff 8 = 1 / 40320"
  "cos_coeff 9 = 0"
  "cos_coeff 10 = - 1 / 3628800"
  "cos_coeff 11 = 0"
  by (simp_all add: cos_coeff_def fact_numeral)

lemma sin_sum12: "(\<Sum>m<12. sin_coeff m * x ^ m) = sin_poly12 x"
  unfolding sum_upto12 sin_coeffs12 sin_poly12_def by simp

lemma cos_sum12: "(\<Sum>m<12. cos_coeff m * x ^ m) = cos_poly12 x"
  unfolding sum_upto12 cos_coeffs12 cos_poly12_def by simp

lemma sum_upto18:
  fixes f :: "nat \<Rightarrow> real"
  shows "(\<Sum>m<18. f m) = f 0 + f 1 + f 2 + f 3 + f 4 + f 5 + f 6 + f 7 + f 8 + f 9 + f 10 + f 11 + f 12 + f 13 + f 14 + f 15 + f 16 + f 17"
  by (simp add: eval_nat_numeral)

lemma cos_coeffs18:
  "cos_coeff 0 = 1 / 1"
  "cos_coeff 1 = 0"
  "cos_coeff 2 = - 1 / 2"
  "cos_coeff 3 = 0"
  "cos_coeff 4 = 1 / 24"
  "cos_coeff 5 = 0"
  "cos_coeff 6 = - 1 / 720"
  "cos_coeff 7 = 0"
  "cos_coeff 8 = 1 / 40320"
  "cos_coeff 9 = 0"
  "cos_coeff 10 = - 1 / 3628800"
  "cos_coeff 11 = 0"
  "cos_coeff 12 = 1 / 479001600"
  "cos_coeff 13 = 0"
  "cos_coeff 14 = - 1 / 87178291200"
  "cos_coeff 15 = 0"
  "cos_coeff 16 = 1 / 20922789888000"
  "cos_coeff 17 = 0"
  by (simp_all add: cos_coeff_def fact_numeral)

lemma cos_sum18: "(\<Sum>m<18. cos_coeff m * x ^ m) = cos_poly18 x"
  unfolding sum_upto18 cos_coeffs18 cos_poly18_def by simp

lemma sin_taylor12: "\<bar>sin x - sin_poly12 x\<bar> \<le> \<bar>x\<bar> ^ 12 / 479001600"
  using Maclaurin_sin_bound [of x 12] by (simp add: sin_sum12 fact_numeral)

lemma cos_taylor:
  "\<bar>cos x - (\<Sum>m<n. cos_coeff m * x ^ m)\<bar> \<le> \<bar>x\<bar> ^ n / fact n"
proof -
  obtain t where c: "cos x = (\<Sum>m<n. cos_coeff m * x ^ m) + (cos (t + 1 / 2 * real n * pi) / fact n) * x ^ n"
    using Maclaurin_cos_expansion [of x n] by blast
  have "\<bar>(cos (t + 1 / 2 * real n * pi) / fact n) * x ^ n\<bar> =
      \<bar>cos (t + 1 / 2 * real n * pi)\<bar> * (\<bar>x\<bar> ^ n / fact n)"
    by (simp add: abs_mult power_abs)
  also have "\<dots> \<le> 1 * (\<bar>x\<bar> ^ n / fact n)"
    by (intro mult_right_mono) simp_all
  finally show ?thesis using c by simp
qed

lemma cos_taylor12: "\<bar>cos x - cos_poly12 x\<bar> \<le> \<bar>x\<bar> ^ 12 / 479001600"
  using cos_taylor [of x 12] by (simp add: cos_sum12 fact_numeral)

lemma cos_taylor18: "\<bar>cos x - cos_poly18 x\<bar> \<le> \<bar>x\<bar> ^ 18 / 6402373705728000"
  using cos_taylor [of x 18] by (simp add: cos_sum18 fact_numeral)

lemma sin_poly_lo: "(6286216213909009 - 1 / 2) / 2 ^ 57 < sin_poly12 x0 - x0 ^ 12 / 479001600"
  unfolding sin_poly12_def x0_def by (simp add: field_simps)

lemma sin_poly_hi: "sin_poly12 x0 + x0 ^ 12 / 479001600 < (6286216213909009 + 1 / 2) / 2 ^ 57"
  unfolding sin_poly12_def x0_def by (simp add: field_simps)

lemma cos_poly_lo: "(8998626396882423 - 1 / 2) / 2 ^ 53 < cos_poly12 x0 - x0 ^ 12 / 479001600"
  unfolding cos_poly12_def x0_def by (simp add: field_simps)

lemma cos_poly_hi: "cos_poly12 x0 + x0 ^ 12 / 479001600 < (8998626396882423 + 1 / 2) / 2 ^ 53"
  unfolding cos_poly12_def x0_def by (simp add: field_simps)

lemma cos_poly_y0_lo: "- (1 / 2 ^ 27) < cos_poly18 y0 - y0 ^ 18 / 6402373705728000"
  unfolding cos_poly18_def y0_def by (simp add: field_simps)

lemma cos_poly_y0_hi: "cos_poly18 y0 + y0 ^ 18 / 6402373705728000 < 1 / 2 ^ 27"
  unfolding cos_poly18_def y0_def by (simp add: field_simps)

lemma sin_x0: "(6286216213909009 - 1 / 2) / 2 ^ 57 < sin x0" "sin x0 < (6286216213909009 + 1 / 2) / 2 ^ 57"
proof -
  have p: "\<bar>x0\<bar> = x0" by (simp add: x0_def)
  show "(6286216213909009 - 1 / 2) / 2 ^ 57 < sin x0"
    using sin_taylor12 [of x0] sin_poly_lo unfolding p by linarith
  show "sin x0 < (6286216213909009 + 1 / 2) / 2 ^ 57"
    using sin_taylor12 [of x0] sin_poly_hi unfolding p by linarith
qed

lemma cos_x0: "(8998626396882423 - 1 / 2) / 2 ^ 53 < cos x0" "cos x0 < (8998626396882423 + 1 / 2) / 2 ^ 53"
proof -
  have p: "\<bar>x0\<bar> = x0" by (simp add: x0_def)
  show "(8998626396882423 - 1 / 2) / 2 ^ 53 < cos x0"
    using cos_taylor12 [of x0] cos_poly_lo unfolding p by linarith
  show "cos x0 < (8998626396882423 + 1 / 2) / 2 ^ 53"
    using cos_taylor12 [of x0] cos_poly_hi unfolding p by linarith
qed

lemma cos_y0: "\<bar>cos y0\<bar> < 1 / 2 ^ 27"
proof -
  have p: "\<bar>y0\<bar> = y0" by (simp add: y0_def)
  show ?thesis using cos_taylor18 [of y0] cos_poly_y0_lo cos_poly_y0_hi unfolding p by linarith
qed

lemma sin_y0: "1 - 1 / 2 ^ 54 < sin y0" "sin y0 \<le> 1"
proof -
  have "0 < y0" "y0 < 2" by (simp_all add: y0_def)
  then have pos: "0 < sin y0" by (rule sin_gt_zero_02)
  have "\<bar>cos y0\<bar> ^ 2 < (1 / 2 ^ 27) ^ 2"
    using cos_y0 by (intro power_strict_mono) simp_all
  then have "(cos y0)\<^sup>2 < (1 / 2 ^ 27)\<^sup>2" by (simp only: power2_abs)
  moreover have "((1::real) / 2 ^ 27)\<^sup>2 = 1 / 2 ^ 54" by (simp add: power_divide)
  ultimately have c2: "(cos y0)\<^sup>2 < 1 / 2 ^ 54" by (simp only:)
  have "(sin y0)\<^sup>2 = 1 - (cos y0)\<^sup>2" by (rule sin_squared_eq)
  with c2 have s2: "1 - 1 / 2 ^ 54 < (sin y0)\<^sup>2" by linarith
  have "sin y0 * sin y0 \<le> sin y0 * 1" using pos by (intro mult_left_mono) simp_all
  then have "(sin y0)\<^sup>2 \<le> sin y0" by (simp add: power2_eq_square)
  with s2 show "1 - 1 / 2 ^ 54 < sin y0" by linarith
  show "sin y0 \<le> 1" by simp
qed

section \<open>The distance between two opposite points\<close>

text \<open>
  The steps of \<^verbatim>\<open>haversine(-90, -2.5, 90, 2.5)\<close>, each the rounding of an exact value:
  the term \<open>a\<close> comes out as \<open>1 + 2 ^ - 52\<close>, so \<^verbatim>\<open>1 - a\<close> is negative.
\<close>

lemma rd_deg_to_rad: "rd (884279719003555 / 2 ^ 48 / 180) = 5030569068109113 / 2 ^ 58"
  using rd_interval [of "-58" 5030569068109113 "884279719003555 / 2 ^ 48 / 180"] by (simp add: pow2_def)

lemma rd_radians_90: "rd (90 * (5030569068109113 / 2 ^ 58)) = 884279719003555 / 2 ^ 49"
  using rd_interval [of "-52" 7074237752028440 "90 * (5030569068109113 / 2 ^ 58)"] by (simp add: pow2_def)

lemma rd_radians_5_2: "rd (5 / 2 * (5030569068109113 / 2 ^ 58)) = 6288211335136391 / 2 ^ 57"
  using rd_interval [of "-57" 6288211335136391 "5 / 2 * (5030569068109113 / 2 ^ 58)"] by (simp add: pow2_def)

lemma rd_dlon: "rd (884279719003555 / 2 ^ 49 + 884279719003555 / 2 ^ 49) = 884279719003555 / 2 ^ 48"
  using rd_exact [of "-51" 7074237752028440] by (simp add: pow2_def)

lemma rd_dlat: "rd (6288211335136391 / 2 ^ 57 + 6288211335136391 / 2 ^ 57) = 6288211335136391 / 2 ^ 56"
  using rd_exact [of "-56" 6288211335136391] by (simp add: pow2_def)

lemma rd_half_dlon: "rd (884279719003555 / 2 ^ 48 / 2) = 884279719003555 / 2 ^ 49"
  using rd_exact [of "-52" 7074237752028440] by (simp add: pow2_def)

lemma rd_half_dlat: "rd (6288211335136391 / 2 ^ 56 / 2) = 6288211335136391 / 2 ^ 57"
  using rd_exact [of "-57" 6288211335136391] by (simp add: pow2_def)

lemma rd_sin_sq: "rd (6286216213909009 / 2 ^ 57 * (6286216213909009 / 2 ^ 57)) = 4387214401548047 / 2 ^ 61"
  using rd_interval [of "-62" 8774428803096094 "6286216213909009 / 2 ^ 57 * (6286216213909009 / 2 ^ 57)"] by (simp add: pow2_def)

lemma rd_cos_sq: "rd (8998626396882423 / 2 ^ 53 * (8998626396882423 / 2 ^ 53)) = 4495030849242473 / 2 ^ 52"
  using rd_interval [of "-53" 8990061698484946 "8998626396882423 / 2 ^ 53 * (8998626396882423 / 2 ^ 53)"] by (simp add: pow2_def)

lemma rd_cos_sq_again: "rd (4495030849242473 / 2 ^ 52) = 4495030849242473 / 2 ^ 52"
  using rd_exact [of "-53" 8990061698484946] by (simp add: pow2_def)

lemma rd_sum: "rd (4387214401548047 / 2 ^ 61 + 4495030849242473 / 2 ^ 52) = 4503599627370497 / 2 ^ 52"
  using rd_interval [of "-52" 4503599627370497 "4387214401548047 / 2 ^ 61 + 4495030849242473 / 2 ^ 52"] by (simp add: pow2_def)

lemma rd_sin_x0: "rd (sin (6288211335136391 / 2 ^ 57)) = 6286216213909009 / 2 ^ 57"
  using rd_interval [of "-57" 6286216213909009 "sin (6288211335136391 / 2 ^ 57)"] sin_x0
  by (simp add: pow2_def x0_def)

lemma rd_cos_x0: "rd (cos (6288211335136391 / 2 ^ 57)) = 8998626396882423 / 2 ^ 53"
  using rd_interval [of "-53" 8998626396882423 "cos (6288211335136391 / 2 ^ 57)"] cos_x0
  by (simp add: pow2_def x0_def)

lemma rd_sin_y0: "rd (sin (884279719003555 / 2 ^ 49)) = 1"
  using rd_one_below [of "sin (884279719003555 / 2 ^ 49)"] sin_y0 by (simp add: y0_def)

lemma rd_one_minus_a: "rd (1 - 4503599627370497 / 2 ^ 52) = - (1 / 2 ^ 52)"
proof -
  have "(1::real) - 4503599627370497 / 2 ^ 52 = - (of_int (2 ^ 52) * pow2 (- 104))"
    by (simp add: pow2_def)
  then have "rd (1 - 4503599627370497 / 2 ^ 52) = - rd (of_int (2 ^ 52) * pow2 (- 104))"
    by (simp only: rd_minus)
  also have "rd (of_int (2 ^ 52) * pow2 (- 104)) = of_int (2 ^ 52) * pow2 (- 104)"
    by (rule rd_exact) simp_all
  finally show ?thesis by (simp add: pow2_def)
qed

lemma deg_to_rad_value: "deg_to_rad = 5030569068109113 / 2 ^ 58"
  unfolding deg_to_rad_def fdiv_def pi_double_def by (rule rd_deg_to_rad)

lemma radians_90: "radians 90 = 884279719003555 / 2 ^ 49"
  unfolding radians_def fmul_def deg_to_rad_value by (rule rd_radians_90)

lemma radians_5_2: "radians (5 / 2) = 6288211335136391 / 2 ^ 57"
  unfolding radians_def fmul_def deg_to_rad_value by (rule rd_radians_5_2)

lemma radians_minus: "radians (- x) = - radians x"
  by (simp add: radians_def fmul_def rd_minus)

lemma haversine_a_antipodal:
  "haversine_a (- 90) (- (5 / 2)) 90 (5 / 2) = 4503599627370497 / 2 ^ 52"
proof -
  have dlon: "fsub (radians 90) (radians (- 90)) = 884279719003555 / 2 ^ 48"
    unfolding fsub_def radians_minus radians_90 diff_minus_eq_add by (rule rd_dlon)
  have dlat: "fsub (radians (5 / 2)) (radians (- (5 / 2))) = 6288211335136391 / 2 ^ 56"
    unfolding fsub_def radians_minus radians_5_2 diff_minus_eq_add by (rule rd_dlat)
  have s1: "fsquare (fsin (fdiv (6288211335136391 / 2 ^ 56) 2)) = 4387214401548047 / 2 ^ 61"
    unfolding fsquare_def fsin_def fdiv_def rd_half_dlat rd_sin_x0 by (rule rd_sin_sq)
  have s2: "fsquare (fsin (fdiv (884279719003555 / 2 ^ 48) 2)) = 1"
    unfolding fsquare_def fsin_def fdiv_def rd_half_dlon rd_sin_y0 by (simp add: rd_1)
  have c1: "fcos (radians (- (5 / 2))) = 8998626396882423 / 2 ^ 53"
    unfolding fcos_def radians_minus radians_5_2 cos_minus by (rule rd_cos_x0)
  have c2: "fcos (radians (5 / 2)) = 8998626396882423 / 2 ^ 53"
    unfolding fcos_def radians_5_2 by (rule rd_cos_x0)
  have p: "fmul (8998626396882423 / 2 ^ 53) (8998626396882423 / 2 ^ 53) = 4495030849242473 / 2 ^ 52"
    unfolding fmul_def by (rule rd_cos_sq)
  have q: "fmul (4495030849242473 / 2 ^ 52) 1 = 4495030849242473 / 2 ^ 52"
    unfolding fmul_def mult_1_right by (rule rd_cos_sq_again)
  have a: "fadd (4387214401548047 / 2 ^ 61) (4495030849242473 / 2 ^ 52) = 4503599627370497 / 2 ^ 52"
    unfolding fadd_def by (rule rd_sum)
  show ?thesis
    unfolding haversine_a_def Let_def dlon dlat s1 s2 c1 c2 p q a by (rule refl)
qed

lemma haversine_antipodal: "haversine (- 90) (- (5 / 2)) 90 (5 / 2) = Inl ValueError"
proof -
  have neg: "fsub 1 (4503599627370497 / 2 ^ 52) < 0"
    unfolding fsub_def rd_one_minus_a by simp
  have nonneg: "\<not> (4503599627370497 / 2 ^ 52 < (0::real))" by simp
  show ?thesis
    unfolding haversine_def Let_def haversine_a_antipodal
    using neg nonneg by (simp add: py_sqrt_def bind_err_def)
qed

lemma haversine_antipodal_decimal: "haversine (- 90) (- 2.5) 90 2.5 = Inl ValueError"
  using haversine_antipodal by simp

section \<open>The distance metric\<close>

text \<open>Exchanging the two points negates the differences and exchanges the cosines.\<close>

lemma fsub_swap: "fsub x y = - fsub y x"
proof -
  have "x - y = - (y - x)" by simp
  then show ?thesis unfolding fsub_def by (simp only: rd_minus)
qed

lemma fdiv_minus: "fdiv (- x) y = - fdiv x y"
  by (simp add: fdiv_def rd_minus)

lemma fsin_minus: "fsin (- x) = - fsin x"
  by (simp add: fsin_def rd_minus)

lemma fsquare_minus: "fsquare (- x) = fsquare x"
  by (simp add: fsquare_def)

lemma fmul_commute: "fmul x y = fmul y x"
  by (simp add: fmul_def mult.commute)

lemma half_angle_swap: "fsquare (fsin (fdiv (fsub x y) 2)) = fsquare (fsin (fdiv (fsub y x) 2))"
proof -
  have "fsquare (fsin (fdiv (fsub x y) 2)) = fsquare (fsin (fdiv (- fsub y x) 2))"
    using fsub_swap [of x y] by simp
  then show ?thesis by (simp only: fdiv_minus fsin_minus fsquare_minus)
qed

lemma haversine_a_sym: "haversine_a lon1 lat1 lon2 lat2 = haversine_a lon2 lat2 lon1 lat1"
  unfolding haversine_a_def Let_def
  by (simp only: half_angle_swap [of "radians lon2" "radians lon1"]
      half_angle_swap [of "radians lat2" "radians lat1"]
      fmul_commute [of "fcos (radians lat1)" "fcos (radians lat2)"])

text \<open>The distance from a point to itself is computed, and is 0.\<close>

lemma haversine_to_itself: "haversine lon lat lon lat = Inr 0"
  by (simp add: haversine_def haversine_a_def py_sqrt_def bind_err_def atan2_def
      fatan2_def fadd_def fsub_def fmul_def fdiv_def fsquare_def fsin_def rd_0 rd_1)

text \<open>
  C4: the distance is symmetric. Exchanging the two points negates both differences,
  whose half-angle sines are squared, and exchanges the two cosines of the product, so
  the term \<open>a\<close> and with it the result (a distance or an exception) is the same.
\<close>

theorem haversine_symmetric:
  "haversine lon1 lat1 lon2 lat2 = haversine lon2 lat2 lon1 lat1"
  by (simp add: haversine_def haversine_a_sym [of lon1 lat1 lon2 lat2])

theorem haversine_symmetric_witness:
  "haversine 90 2.5 (- 90) (- 2.5) = Inl ValueError \<and>
   haversine (- 90) (- 2.5) 90 2.5 = Inl ValueError"
  using haversine_symmetric [of 90 "2.5" "- 90" "- 2.5"] haversine_antipodal_decimal by simp

text \<open>
  C8 (the code differs): \<^verbatim>\<open>haversine\<close> does not return for every input. For the
  points (-90, -2.5) and (90, 2.5), opposite each other on the globe, the rounded term
  \<open>a\<close> is \<open>1 + 2 ^ - 52\<close>, above \<open>1\<close>, and \<^verbatim>\<open>math.sqrt(1 - a)\<close> raises \<^verbatim>\<open>ValueError\<close>.
\<close>

theorem haversine_raises_at_opposite_points:
  "haversine_a (- 90) (- 2.5) 90 2.5 = 1 + 1 / 2 ^ 52 \<and>
   haversine (- 90) (- 2.5) 90 2.5 = Inl ValueError"
  using haversine_a_antipodal haversine_antipodal by simp

section \<open>The nearest water body\<close>

text \<open>
  What the scan returns from a starting minimum \<open>m\<close> when the distance to every
  water body is computed: infinity only when it started there and met no water body;
  otherwise a distance that is the start or the distance to a scanned water body, and
  is below the start and every scanned distance.
\<close>

lemma nearest_loop_spec:
  assumes "\<forall>w\<in>set ws. \<exists>d. haversine lon lat (wb_lon w) (wb_lat w) = Inr d"
  shows "\<exists>r. nearest_loop lon lat ws m = Inr r \<and>
     (case r of
        PosInf \<Rightarrow> m = PosInf \<and> ws = []
      | Finite x \<Rightarrow>
          (m = Finite x \<or> (\<exists>w\<in>set ws. haversine lon lat (wb_lon w) (wb_lat w) = Inr x)) \<and>
          (\<forall>w\<in>set ws. \<exists>d. haversine lon lat (wb_lon w) (wb_lat w) = Inr d \<and> x \<le> d) \<and>
          (\<forall>y. m = Finite y \<longrightarrow> x \<le> y))"
  using assms
proof (induction ws arbitrary: m)
  case Nil
  show ?case by (cases m) simp_all
next
  case (Cons w ws)
  obtain d where d: "haversine lon lat (wb_lon w) (wb_lat w) = Inr d"
    using Cons.prems by auto
  have rest: "\<forall>w\<in>set ws. \<exists>d. haversine lon lat (wb_lon w) (wb_lat w) = Inr d"
    using Cons.prems by simp
  let ?m' = "if lt_float d m then Finite d else m"
  from Cons.IH [OF rest, of ?m'] obtain r where r: "nearest_loop lon lat ws ?m' = Inr r"
    and spec: "case r of
        PosInf \<Rightarrow> ?m' = PosInf \<and> ws = []
      | Finite x \<Rightarrow>
          (?m' = Finite x \<or> (\<exists>w\<in>set ws. haversine lon lat (wb_lon w) (wb_lat w) = Inr x)) \<and>
          (\<forall>w\<in>set ws. \<exists>d. haversine lon lat (wb_lon w) (wb_lat w) = Inr d \<and> x \<le> d) \<and>
          (\<forall>y. ?m' = Finite y \<longrightarrow> x \<le> y)"
    by blast
  have step: "nearest_loop lon lat (w # ws) m = Inr r"
    using d r by (simp add: bind_err_def)
  show ?case
  proof (cases r)
    case PosInf
    with spec have "?m' = PosInf" by simp
    then have False by (cases m) (auto split: if_splits)
    then show ?thesis ..
  next
    case (Finite x)
    with spec have a: "?m' = Finite x \<or> (\<exists>w\<in>set ws. haversine lon lat (wb_lon w) (wb_lat w) = Inr x)"
      and b: "\<forall>w\<in>set ws. \<exists>d. haversine lon lat (wb_lon w) (wb_lat w) = Inr d \<and> x \<le> d"
      and c: "\<forall>y. ?m' = Finite y \<longrightarrow> x \<le> y"
      by simp_all
    have xd: "x \<le> d" using c by (cases m) (auto split: if_splits)
    have xm: "\<forall>y. m = Finite y \<longrightarrow> x \<le> y" using c by (auto split: if_splits)
    have ach: "m = Finite x \<or> (\<exists>v\<in>set (w # ws). haversine lon lat (wb_lon v) (wb_lat v) = Inr x)"
      using a d by (auto split: if_splits)
    have all: "\<forall>v\<in>set (w # ws). \<exists>e. haversine lon lat (wb_lon v) (wb_lat v) = Inr e \<and> x \<le> e"
      using b d xd by auto
    show ?thesis using step Finite ach all xm by simp
  qed
qed

text \<open>
  So, when the distance to every stored point is computed, the scan over a non-empty
  sequence returns their minimum, and the same for every sequence with these elements.
\<close>

lemma nearest_minimum_when_distances_return:
  assumes "wbl \<noteq> []"
    and "\<forall>w\<in>set wbl. \<exists>d. haversine lon lat (wb_lon w) (wb_lat w) = Inr d"
  shows "\<exists>m. get_nearest_water_distance lon lat wbl = Inr (Finite m) \<and>
           (\<exists>w\<in>set wbl. haversine lon lat (wb_lon w) (wb_lat w) = Inr m) \<and>
           (\<forall>w\<in>set wbl. \<exists>d. haversine lon lat (wb_lon w) (wb_lat w) = Inr d \<and> m \<le> d)"
proof -
  from nearest_loop_spec [OF assms(2), of PosInf] obtain r where
    r: "nearest_loop lon lat wbl PosInf = Inr r" and
    spec: "case r of
        PosInf \<Rightarrow> PosInf = PosInf \<and> wbl = []
      | Finite x \<Rightarrow>
          (PosInf = Finite x \<or> (\<exists>w\<in>set wbl. haversine lon lat (wb_lon w) (wb_lat w) = Inr x)) \<and>
          (\<forall>w\<in>set wbl. \<exists>d. haversine lon lat (wb_lon w) (wb_lat w) = Inr d \<and> x \<le> d) \<and>
          (\<forall>y. PosInf = Finite y \<longrightarrow> x \<le> y)"
    by blast
  show ?thesis
  proof (cases r)
    case PosInf
    with spec assms(1) show ?thesis by simp
  next
    case (Finite x)
    with spec r show ?thesis by (auto simp: get_nearest_water_distance_def)
  qed
qed

lemma nearest_same_for_permutations:
  assumes "wbl \<noteq> []" and "mset wbl' = mset wbl"
    and "\<forall>w\<in>set wbl. \<exists>d. haversine lon lat (wb_lon w) (wb_lat w) = Inr d"
  shows "get_nearest_water_distance lon lat wbl' = get_nearest_water_distance lon lat wbl"
proof -
  from assms(2) have s: "set wbl' = set wbl" by (rule mset_eq_setD)
  with assms(1) have ne: "wbl' \<noteq> []" by auto
  from assms(3) s have all': "\<forall>w\<in>set wbl'. \<exists>d. haversine lon lat (wb_lon w) (wb_lat w) = Inr d"
    by simp
  from nearest_minimum_when_distances_return [OF assms(1) assms(3)] obtain m where
    m: "get_nearest_water_distance lon lat wbl = Inr (Finite m)"
    and ma: "\<exists>w\<in>set wbl. haversine lon lat (wb_lon w) (wb_lat w) = Inr m"
    and ml: "\<forall>w\<in>set wbl. \<exists>d. haversine lon lat (wb_lon w) (wb_lat w) = Inr d \<and> m \<le> d"
    by blast
  from nearest_minimum_when_distances_return [OF ne all'] obtain m' where
    m': "get_nearest_water_distance lon lat wbl' = Inr (Finite m')"
    and ma': "\<exists>w\<in>set wbl'. haversine lon lat (wb_lon w) (wb_lat w) = Inr m'"
    and ml': "\<forall>w\<in>set wbl'. \<exists>d. haversine lon lat (wb_lon w) (wb_lat w) = Inr d \<and> m' \<le> d"
    by blast
  have "m \<le> m'" using ml ma' s by fastforce
  moreover have "m' \<le> m" using ml' ma s by fastforce
  ultimately show ?thesis using m m' by simp
qed

text \<open>
  C3 (the code differs): the scan does not return the minimum for every non-empty
  sequence and every query point. For the query point (-90, -2.5) and the one stored
  point (90, 2.5) the distance computation raises \<^verbatim>\<open>ValueError\<close>, and so does the scan;
  it does so too when a second stored point lies at the query point itself, at the
  distance 0.
\<close>

theorem nearest_scan_raises_at_opposite_points:
  "get_nearest_water_distance (- 90) (- 2.5) [\<lparr>wb_lon = 90, wb_lat = 2.5\<rparr>] = Inl ValueError \<and>
   get_nearest_water_distance (- 90) (- 2.5)
     [\<lparr>wb_lon = - 90, wb_lat = - 2.5\<rparr>, \<lparr>wb_lon = 90, wb_lat = 2.5\<rparr>] = Inl ValueError"
  by (simp add: get_nearest_water_distance_def bind_err_def haversine_antipodal
      haversine_to_itself)

section \<open>The centroid\<close>

text \<open>
  On the coordinates of a well-formed geometry every point adds its longitude and
  latitude to the sums and one to the count.
\<close>

lemma add_points_sum:
  "fold_err add_point (map point_json ps) (a, b, n) =
     Inr (a + sum_list (map fst ps), b + sum_list (map snd ps), n + length ps)"
  by (induction ps arbitrary: a b n) (simp_all add: point_json_def add.assoc)

lemma add_ring_sum:
  "add_ring (ring_json ps) (a, b, n) =
     Inr (a + sum_list (map fst ps), b + sum_list (map snd ps), n + length ps)"
  by (simp add: add_ring_def ring_json_def add_points_sum)

lemma add_rings_sum:
  "fold_err add_ring (map ring_json rings) (a, b, n) =
     Inr (a + sum_list (map fst (concat rings)), b + sum_list (map snd (concat rings)),
          n + length (concat rings))"
  by (induction rings arbitrary: a b n) (simp_all add: add_ring_sum add.assoc)

lemma add_part_sum:
  "add_part (polygon_json rings) (a, b, n) =
     Inr (a + sum_list (map fst (concat rings)), b + sum_list (map snd (concat rings)),
          n + length (concat rings))"
  by (simp add: add_part_def polygon_json_def add_rings_sum)

lemma add_parts_sum:
  "fold_err add_part (map polygon_json parts) (a, b, n) =
     Inr (a + sum_list (map fst (concat (concat parts))),
          b + sum_list (map snd (concat (concat parts))),
          n + length (concat (concat parts)))"
  by (induction parts arbitrary: a b n) (simp_all add: add_part_sum add.assoc)

lemma centroid_polygon:
  assumes "ring \<noteq> []"
  shows "find_polygon_centroid (polygon_json (ring # rings)) =
           Inr (Some (vertex_mean (concat (ring # rings))))"
proof -
  obtain p ps where ring: "ring = p # ps" using assms by (cases ring) auto
  have probe: "subscript0 (polygon_json (ring # rings)) = Inr (ring_json ring)"
    "subscript0 (ring_json ring) = Inr (point_json p)"
    "subscript0 (point_json p) = Inr (Num (fst p))"
    by (simp_all add: polygon_json_def ring_json_def point_json_def ring)
  have loop: "for_each add_ring (polygon_json (ring # rings)) (0, 0, 0) =
      Inr (sum_list (map fst (concat (ring # rings))), sum_list (map snd (concat (ring # rings))),
           length (concat (ring # rings)))"
    using add_rings_sum [of "ring # rings" 0 0 0] by (simp add: polygon_json_def)
  have pos: "0 < length (concat (ring # rings))" using ring by simp
  show ?thesis
    using pos by (simp add: find_polygon_centroid_def bind_err_def probe loop vertex_mean_def)
qed

lemma centroid_multipolygon:
  assumes "ring \<noteq> []"
  shows "find_polygon_centroid (multipolygon_json ((ring # rings) # parts)) =
           Inr (Some (vertex_mean (concat (concat ((ring # rings) # parts)))))"
proof -
  obtain p ps where ring: "ring = p # ps" using assms by (cases ring) auto
  let ?parts = "(ring # rings) # parts"
  have probe: "subscript0 (multipolygon_json ?parts) = Inr (polygon_json (ring # rings))"
    "subscript0 (polygon_json (ring # rings)) = Inr (ring_json ring)"
    "subscript0 (ring_json ring) = Inr (point_json p)"
    "is_list (point_json p)"
    by (simp_all add: multipolygon_json_def polygon_json_def ring_json_def point_json_def ring)
  have loop: "for_each add_part (multipolygon_json ?parts) (0, 0, 0) =
      Inr (sum_list (map fst (concat (concat ?parts))), sum_list (map snd (concat (concat ?parts))),
           length (concat (concat ?parts)))"
    using add_parts_sum [of ?parts 0 0 0] by (simp add: multipolygon_json_def)
  have pos: "0 < length (concat (concat ?parts))" using ring by simp
  show ?thesis
    using pos by (simp add: find_polygon_centroid_def bind_err_def probe loop vertex_mean_def)
qed

text \<open>
  C5: the centroid is the unweighted mean of the longitudes and of the latitudes of all
  vertices of all rings. For a Polygon (the probe \<^verbatim>\<open>coords[0][0][0]\<close> is a number) the
  vertices are those of its rings; for a MultiPolygon (the probe is a list) those of the
  rings of all its parts. The first ring must have a vertex for the probe to succeed.
  The square \<^verbatim>\<open>[[[0,0],[0,2],[2,2],[2,0]]]\<close> has the centroid \<open>(1, 1)\<close>.
\<close>

theorem centroid_is_vertex_mean:
  "(ring \<noteq> [] \<longrightarrow>
      find_polygon_centroid (polygon_json (ring # rings)) =
        Inr (Some (vertex_mean (concat (ring # rings))))) \<and>
   (ring \<noteq> [] \<longrightarrow>
      find_polygon_centroid (multipolygon_json ((ring # rings) # parts)) =
        Inr (Some (vertex_mean (concat (concat ((ring # rings) # parts)))))) \<and>
   find_polygon_centroid
     (Lst [Lst [Lst [Num 0, Num 0], Lst [Num 0, Num 2], Lst [Num 2, Num 2], Lst [Num 2, Num 0]]]) =
     Inr (Some (1, 1))"
proof -
  have "find_polygon_centroid
     (Lst [Lst [Lst [Num 0, Num 0], Lst [Num 0, Num 2], Lst [Num 2, Num 2], Lst [Num 2, Num 0]]]) =
     Inr (Some (1, 1))"
    by (simp add: find_polygon_centroid_def bind_err_def add_ring_def)
  then show ?thesis using centroid_polygon centroid_multipolygon by blast
qed

theorem centroid_is_vertex_mean_witness:
  "find_polygon_centroid (polygon_json [square]) = Inr (Some (1, 1)) \<and>
   find_polygon_centroid (multipolygon_json [[square], [[(4, 4), (6, 4)]]]) = Inr (Some (7 / 3, 2))"
proof -
  have ne: "square \<noteq> []" by (simp add: square_def)
  from centroid_is_vertex_mean [of square "[]" "[[[(4, 4), (6, 4)]]]"] ne
  show ?thesis by (simp add: vertex_mean_def square_def)
qed

text \<open>
  When the loops return, the count is positive: the probe has found a first element in
  the first ring, and that element is counted before anything else.
\<close>

lemma add_point_count:
  "add_point p (a, b, n) = Inr (a', b', n') \<Longrightarrow> n' = Suc n"
  by (induction p "(a, b, n)" rule: add_point.induct) auto

lemma fold_points_count:
  "fold_err add_point ps (a, b, n) = Inr (a', b', n') \<Longrightarrow> n' = n + length ps"
proof (induction ps arbitrary: a b n)
  case Nil
  then show ?case by simp
next
  case (Cons p ps)
  show ?case
  proof (cases "add_point p (a, b, n)")
    case (Inl e)
    with Cons.prems show ?thesis by simp
  next
    case (Inr s)
    obtain a1 b1 n1 where s: "s = (a1, b1, n1)" by (cases s) auto
    from Inr s have "n1 = Suc n" by (auto dest: add_point_count)
    moreover from Cons.prems Inr s have "n' = n1 + length ps" by (auto dest: Cons.IH)
    ultimately show ?thesis by simp
  qed
qed

lemma add_ring_count:
  "add_ring r (a, b, n) = Inr (a', b', n') \<Longrightarrow> n \<le> n'"
  by (cases r) (auto simp: add_ring_def dest: fold_points_count)

lemma fold_rings_count:
  "fold_err add_ring rs (a, b, n) = Inr (a', b', n') \<Longrightarrow> n \<le> n'"
proof (induction rs arbitrary: a b n)
  case Nil
  then show ?case by simp
next
  case (Cons r rs)
  show ?case
  proof (cases "add_ring r (a, b, n)")
    case (Inl e)
    with Cons.prems show ?thesis by simp
  next
    case (Inr s)
    obtain a1 b1 n1 where s: "s = (a1, b1, n1)" by (cases s) auto
    from Inr s have "n \<le> n1" by (auto dest: add_ring_count)
    moreover from Cons.prems Inr s have "n1 \<le> n'" by (auto dest: Cons.IH)
    ultimately show ?thesis by simp
  qed
qed

lemma add_part_count:
  "add_part r (a, b, n) = Inr (a', b', n') \<Longrightarrow> n \<le> n'"
  by (cases r) (auto simp: add_part_def dest: fold_rings_count)

lemma fold_parts_count:
  "fold_err add_part rs (a, b, n) = Inr (a', b', n') \<Longrightarrow> n \<le> n'"
proof (induction rs arbitrary: a b n)
  case Nil
  then show ?case by simp
next
  case (Cons r rs)
  show ?case
  proof (cases "add_part r (a, b, n)")
    case (Inl e)
    with Cons.prems show ?thesis by simp
  next
    case (Inr s)
    obtain a1 b1 n1 where s: "s = (a1, b1, n1)" by (cases s) auto
    from Inr s have "n \<le> n1" by (auto dest: add_part_count)
    moreover from Cons.prems Inr s have "n1 \<le> n'" by (auto dest: Cons.IH)
    ultimately show ?thesis by simp
  qed
qed

lemma subscript0_Inr: "subscript0 j = Inr x \<Longrightarrow> \<exists>xs. j = Lst (x # xs)"
  by (induction j rule: subscript0.induct) auto

lemma first_ring_counts:
  assumes "add_ring (Lst (c # cs)) (a, b, n) = Inr (a', b', n')"
  shows "n < n'"
proof -
  from assms have "fold_err add_point (c # cs) (a, b, n) = Inr (a', b', n')"
    by (simp add: add_ring_def)
  then have "n' = n + length (c # cs)" by (rule fold_points_count)
  then show ?thesis by simp
qed

lemma polygon_branch_counts:
  assumes "fold_err add_ring (Lst (c # cs) # rs) (0, 0, 0) = Inr (a, b, n)"
  shows "0 < n"
proof (cases "add_ring (Lst (c # cs)) (0, 0, 0)")
  case (Inl e)
  with assms show ?thesis by simp
next
  case (Inr s)
  obtain a1 b1 n1 where s: "s = (a1, b1, n1)" by (cases s) auto
  from Inr s have "0 < n1" by (auto dest: first_ring_counts)
  moreover from assms Inr s have "n1 \<le> n" by (auto dest: fold_rings_count)
  ultimately show ?thesis by simp
qed

lemma multipolygon_branch_counts:
  assumes "fold_err add_part (Lst (Lst (c # cs) # rs) # ps) (0, 0, 0) = Inr (a, b, n)"
  shows "0 < n"
proof (cases "add_part (Lst (Lst (c # cs) # rs)) (0, 0, 0)")
  case (Inl e)
  with assms show ?thesis by simp
next
  case (Inr s)
  obtain a1 b1 n1 where s: "s = (a1, b1, n1)" by (cases s) auto
  from Inr s have "fold_err add_ring (Lst (c # cs) # rs) (0, 0, 0) = Inr (a1, b1, n1)"
    by (simp add: add_part_def)
  then have "0 < n1" by (rule polygon_branch_counts)
  moreover from assms Inr s have "n1 \<le> n" by (auto dest: fold_parts_count)
  ultimately show ?thesis by simp
qed

lemma centroid_never_absent: "find_polygon_centroid coords \<noteq> Inr None"
proof
  assume none: "find_polygon_centroid coords = Inr None"
  then obtain c0 where c0: "subscript0 coords = Inr c0"
    by (cases "subscript0 coords") (auto simp: find_polygon_centroid_def bind_err_def)
  from none c0 obtain c00 where c00: "subscript0 c0 = Inr c00"
    by (cases "subscript0 c0") (auto simp: find_polygon_centroid_def bind_err_def)
  from none c0 c00 obtain c000 where c000: "subscript0 c00 = Inr c000"
    by (cases "subscript0 c00") (auto simp: find_polygon_centroid_def bind_err_def)
  from subscript0_Inr [OF c0] obtain rest where coords: "coords = Lst (c0 # rest)" by blast
  from subscript0_Inr [OF c00] obtain rest0 where c0': "c0 = Lst (c00 # rest0)" by blast
  from subscript0_Inr [OF c000] obtain rest00 where c00': "c00 = Lst (c000 # rest00)" by blast
  let ?loop = "if is_list c000 then for_each add_part coords (0, 0, 0)
               else for_each add_ring coords (0, 0, 0)"
  from none c0 c00 c000 obtain a b n where loop: "?loop = Inr (a, b, n)" and n: "\<not> 0 < n"
    by (cases ?loop) (auto simp: find_polygon_centroid_def bind_err_def split: if_splits)
  have "0 < n"
  proof (cases "is_list c000")
    case True
    with loop have "fold_err add_part (Lst (Lst (c000 # rest00) # rest0) # rest) (0, 0, 0) = Inr (a, b, n)"
      by (simp add: coords c0' c00')
    then show ?thesis by (rule multipolygon_branch_counts)
  next
    case False
    with loop have "fold_err add_ring (Lst (c00 # rest0) # rest) (0, 0, 0) = Inr (a, b, n)"
      by (simp add: coords c0')
    then show ?thesis by (rule polygon_branch_counts)
  qed
  with n show False by simp
qed

text \<open>
  C9 (the code differs): coordinates without a vertex do not give the absent result.
  The Polygon with one empty ring, \<^verbatim>\<open>[[]]\<close>, makes the probe raise \<^verbatim>\<open>IndexError\<close>,
  which leaves the loading of the water bodies instead of skipping the feature; and
  there is no input on which the centroid returns \<^verbatim>\<open>(None, None)\<close>.
\<close>

theorem zero_vertices_raise:
  "find_polygon_centroid (Lst [Lst []]) = Inl IndexError \<and>
   load_water_feature (Lst [Lst []]) water_body_locations = Inl IndexError \<and>
   find_polygon_centroid coords \<noteq> Inr None"
  using centroid_never_absent [of coords]
  by (simp add: find_polygon_centroid_def load_water_feature_def bind_err_def)

section \<open>The recommendation tiers\<close>

text \<open>
  A formatted distance starts with a digit, a minus sign or the \<open>i\<close> of \<^verbatim>\<open>inf\<close>, so
  the five messages are different texts whatever the distances are.
\<close>

lemma digit_char_not_o: "digit_char n \<noteq> CHR ''o''"
proof -
  have "n mod 10 < length ''0123456789''" by simp
  then have "''0123456789'' ! (n mod 10) \<in> set ''0123456789''" by (rule nth_mem)
  then show ?thesis unfolding digit_char_def by auto
qed

lemma show_nat_hd: "\<exists>c cs. show_nat n = c # cs \<and> c \<noteq> CHR ''o''"
proof (induction n rule: show_nat.induct)
  case (1 n)
  show ?case
  proof (cases "n < 10")
    case True
    then show ?thesis by (subst show_nat.simps) (simp add: digit_char_not_o)
  next
    case False
    with 1 obtain c cs where "show_nat (n div 10) = c # cs" "c \<noteq> CHR ''o''" by blast
    with False show ?thesis by (subst show_nat.simps) simp
  qed
qed

lemma format_2f_hd: "\<exists>c cs. format_2f x = c # cs \<and> c \<noteq> CHR ''o''"
proof (cases x)
  case PosInf
  then show ?thesis by simp
next
  case (Finite r)
  obtain c cs where "show_nat (nat (round_half_even (\<bar>r\<bar> * 100)) div 100) = c # cs" "c \<noteq> CHR ''o''"
    using show_nat_hd by blast
  with Finite show ?thesis by (simp add: fmt2_def Let_def)
qed

lemma tier_messages_distinct:
  "distinct [no_data_msg, critical_msg, severe_msg x, moderate_msg y, adequate_msg z]"
proof -
  obtain c cs where "format_2f x = c # cs" "c \<noteq> CHR ''o''" using format_2f_hd by blast
  then show ?thesis
    by (simp add: no_data_msg_def critical_msg_def severe_msg_def moderate_msg_def adequate_msg_def)
qed

text \<open>
  C1: a finite distance \<open>d\<close> is classified by the thresholds 10, 100 and 1000, each
  band closed above: \<open>d \<le> 10\<close> is adequate, \<open>10 < d \<le> 100\<close> moderate,
  \<open>100 < d \<le> 1000\<close> severe and \<open>1000 < d\<close> critical. So 10.00 is adequate, 10.01
  moderate, 100.00 moderate, 100.01 severe, 1000.00 severe and 1000.01 critical. The
  four messages are pairwise different, so each distance has exactly one tier.
\<close>

theorem recommendation_thresholds:
  "(d \<le> 10 \<longrightarrow> recommendation_text (Finite d) = adequate_msg (Finite d)) \<and>
   (10 < d \<and> d \<le> 100 \<longrightarrow> recommendation_text (Finite d) = moderate_msg (Finite d)) \<and>
   (100 < d \<and> d \<le> 1000 \<longrightarrow> recommendation_text (Finite d) = severe_msg (Finite d)) \<and>
   (1000 < d \<longrightarrow> recommendation_text (Finite d) = critical_msg) \<and>
   recommendation_text (Finite 10.00) = adequate_msg (Finite 10.00) \<and>
   recommendation_text (Finite 10.01) = moderate_msg (Finite 10.01) \<and>
   recommendation_text (Finite 100.00) = moderate_msg (Finite 100.00) \<and>
   recommendation_text (Finite 100.01) = severe_msg (Finite 100.01) \<and>
   recommendation_text (Finite 1000.00) = severe_msg (Finite 1000.00) \<and>
   recommendation_text (Finite 1000.01) = critical_msg \<and>
   distinct [critical_msg, severe_msg (Finite d), moderate_msg (Finite d), adequate_msg (Finite d)]"
  using tier_messages_distinct [of "Finite d" "Finite d" "Finite d"]
  by (simp add: recommendation_text_def)

theorem recommendation_thresholds_witness:
  "recommendation_text (Finite 5) = adequate_msg (Finite 5) \<and>
   recommendation_text (Finite 50) = moderate_msg (Finite 50) \<and>
   recommendation_text (Finite 500) = severe_msg (Finite 500) \<and>
   recommendation_text (Finite 5000) = critical_msg"
  using recommendation_thresholds [of 5] recommendation_thresholds [of 50]
    recommendation_thresholds [of 500] recommendation_thresholds [of 5000]
  by simp

lemma nearest_empty: "get_nearest_water_distance lon lat [] = Inr PosInf"
  by (simp add: get_nearest_water_distance_def)

text \<open>
  C2: with no water body stored the nearest distance is the infinite one for every query
  point, and the infinite distance is classified as critical; so a registered village
  then gets the critical message with the infinite distance.
\<close>
theorem empty_water_set_is_critical:
  "get_nearest_water_distance lon lat [] = Inr PosInf \<and>
   recommendation_text PosInf = critical_msg \<and>
   (fra_get fra village_name = Inr (Some village_info) \<longrightarrow>
      generate_water_recommendation fra [] village_name = Inr (critical_msg, Distance PosInf))"
  by (simp add: nearest_empty recommendation_text_def generate_water_recommendation_def bind_err_def)

theorem empty_water_set_is_critical_witness:
  "fra_get [''Rampur'' \<mapsto> rampur] (Name ''Rampur'') = Inr (Some rampur) \<and>
   generate_water_recommendation [''Rampur'' \<mapsto> rampur] [] (Name ''Rampur'') =
     Inr (critical_msg, Distance PosInf)"
  using empty_water_set_is_critical [of 0 0 "[''Rampur'' \<mapsto> rampur]" "Name ''Rampur''" rampur]
  by simp

section \<open>The result for one village\<close>

lemma generate_unknown:
  "fra_get fra village_name = Inr None \<Longrightarrow>
     generate_water_recommendation fra wbl village_name = Inr (no_data_msg, NA)"
  by (simp add: generate_water_recommendation_def bind_err_def)

lemma generate_registered:
  "fra_get fra village_name = Inr (Some vi) \<Longrightarrow>
     generate_water_recommendation fra wbl village_name =
       bind_err (get_nearest_water_distance (vi_lon vi) (vi_lat vi) wbl)
         (\<lambda>water_dist. Inr (recommendation_text water_dist, Distance water_dist))"
  by (simp add: generate_water_recommendation_def bind_err_def)

lemma generate_unhashable:
  "fra_get fra village_name = Inl e \<Longrightarrow>
     generate_water_recommendation fra wbl village_name = Inl e"
  by (simp add: generate_water_recommendation_def bind_err_def)

text \<open>
  C10: the result for a village carries the distance \<^verbatim>\<open>"N/A"\<close> exactly when the name
  is not in the village mapping. For a registered village every result that is
  returned carries the nearest-water value as its distance, with the message of its
  tier, and a result is returned whenever the scan returns that value; with no water
  body stored the value is the infinite one, in the critical tier, and still not
  \<^verbatim>\<open>"N/A"\<close>.
\<close>

theorem na_iff_village_absent:
  "((\<exists>msg. generate_water_recommendation fra wbl village_name = Inr (msg, NA)) \<longleftrightarrow>
      fra_get fra village_name = Inr None) \<and>
   (\<forall>vi msg dw. fra_get fra village_name = Inr (Some vi) \<longrightarrow>
      generate_water_recommendation fra wbl village_name = Inr (msg, dw) \<longrightarrow>
        (\<exists>wd. get_nearest_water_distance (vi_lon vi) (vi_lat vi) wbl = Inr wd \<and>
           dw = Distance wd \<and> msg = recommendation_text wd)) \<and>
   (\<forall>vi wd. fra_get fra village_name = Inr (Some vi) \<longrightarrow>
      get_nearest_water_distance (vi_lon vi) (vi_lat vi) wbl = Inr wd \<longrightarrow>
        generate_water_recommendation fra wbl village_name =
          Inr (recommendation_text wd, Distance wd)) \<and>
   (\<forall>vi. fra_get fra village_name = Inr (Some vi) \<longrightarrow>
      generate_water_recommendation fra [] village_name = Inr (critical_msg, Distance PosInf))"
proof (intro conjI allI impI)
  show "(\<exists>msg. generate_water_recommendation fra wbl village_name = Inr (msg, NA)) \<longleftrightarrow>
      fra_get fra village_name = Inr None"
  proof (cases "fra_get fra village_name")
    case (Inl e)
    then show ?thesis using generate_unhashable [OF Inl, of wbl] by simp
  next
    case (Inr found)
    show ?thesis
    proof (cases found)
      case None
      with Inr show ?thesis using generate_unknown [of fra village_name wbl] by simp
    next
      case (Some vi)
      with Inr have r: "fra_get fra village_name = Inr (Some vi)" by simp
      show ?thesis
        unfolding generate_registered [OF r] r
        by (cases "get_nearest_water_distance (vi_lon vi) (vi_lat vi) wbl")
          (simp_all add: bind_err_def)
    qed
  qed
next
  fix vi msg dw
  assume r: "fra_get fra village_name = Inr (Some vi)"
    and g: "generate_water_recommendation fra wbl village_name = Inr (msg, dw)"
  from g show "\<exists>wd. get_nearest_water_distance (vi_lon vi) (vi_lat vi) wbl = Inr wd \<and>
           dw = Distance wd \<and> msg = recommendation_text wd"
    unfolding generate_registered [OF r]
    by (cases "get_nearest_water_distance (vi_lon vi) (vi_lat vi) wbl")
      (auto simp: bind_err_def)
next
  fix vi wd
  assume r: "fra_get fra village_name = Inr (Some vi)"
    and n: "get_nearest_water_distance (vi_lon vi) (vi_lat vi) wbl = Inr wd"
  show "generate_water_recommendation fra wbl village_name =
          Inr (recommendation_text wd, Distance wd)"
    unfolding generate_registered [OF r] n by (simp add: bind_err_def)
next
  fix vi
  assume r: "fra_get fra village_name = Inr (Some vi)"
  show "generate_water_recommendation fra [] village_name = Inr (critical_msg, Distance PosInf)"
    unfolding generate_registered [OF r]
    by (simp add: nearest_empty bind_err_def recommendation_text_def)
qed

theorem na_iff_village_absent_witness:
  "generate_water_recommendation [''Rampur'' \<mapsto> rampur] [\<lparr>wb_lon = 85, wb_lat = 20\<rparr>]
     (Name ''Rampur'') = Inr (adequate_msg (Finite 0), Distance (Finite 0)) \<and>
   generate_water_recommendation [''Rampur'' \<mapsto> rampur] [] (Name ''Rampur'') =
     Inr (critical_msg, Distance PosInf) \<and>
   (\<exists>msg. generate_water_recommendation [''Rampur'' \<mapsto> rampur] [\<lparr>wb_lon = 85, wb_lat = 20\<rparr>]
     (Name ''Sonpur'') = Inr (msg, NA))"
proof -
  let ?fra = "[''Rampur'' \<mapsto> rampur]" and ?wbl = "[\<lparr>wb_lon = 85, wb_lat = 20\<rparr>]"
  have k: "fra_get ?fra (Name ''Rampur'') = Inr (Some rampur)" by simp
  have u: "fra_get ?fra (Name ''Sonpur'') = Inr None" by simp
  have n: "get_nearest_water_distance (vi_lon rampur) (vi_lat rampur) ?wbl = Inr (Finite 0)"
    by (simp add: get_nearest_water_distance_def rampur_def haversine_to_itself bind_err_def)
  have t: "recommendation_text (Finite 0) = adequate_msg (Finite 0)"
    by (simp add: recommendation_text_def)
  note c = na_iff_village_absent [of ?fra ?wbl "Name ''Rampur''"]
  from c k n have 1: "generate_water_recommendation ?fra ?wbl (Name ''Rampur'') =
      Inr (recommendation_text (Finite 0), Distance (Finite 0))" by blast
  from c k have 2: "generate_water_recommendation ?fra [] (Name ''Rampur'') =
      Inr (critical_msg, Distance PosInf)" by blast
  from na_iff_village_absent [of ?fra ?wbl "Name ''Sonpur''"] u
  have 3: "\<exists>msg. generate_water_recommendation ?fra ?wbl (Name ''Sonpur'') = Inr (msg, NA)"
    by blast
  from 1 2 3 t show ?thesis by simp
qed

section \<open>The batch\<close>

text \<open>The results collected so far are a prefix of the final list and are not read.\<close>

lemma analyze_loop_acc:
  "analyze_loop fra wbl names acc =
     bind_err (analyze_loop fra wbl names []) (\<lambda>r. Inr (acc @ r))"
proof (induction names arbitrary: acc)
  case Nil
  show ?case by (simp add: bind_err_def)
next
  case (Cons name names)
  show ?case
  proof (cases "generate_water_recommendation fra wbl name")
    case (Inl e)
    then show ?thesis by (simp add: bind_err_def)
  next
    case (Inr md)
    obtain msg dw where g: "generate_water_recommendation fra wbl name = Inr (msg, dw)"
      using Inr by (cases md) auto
    let ?r = "\<lparr>village = name, recommendation = msg, distance_to_water = dw\<rparr>"
    have "analyze_loop fra wbl (name # names) acc = analyze_loop fra wbl names (acc @ [?r])"
      using g by (simp add: bind_err_def)
    also have "\<dots> = bind_err (analyze_loop fra wbl names []) (\<lambda>r. Inr ((acc @ [?r]) @ r))"
      by (rule Cons.IH)
    finally have l: "analyze_loop fra wbl (name # names) acc =
        bind_err (analyze_loop fra wbl names []) (\<lambda>r. Inr ((acc @ [?r]) @ r))" .
    have "analyze_loop fra wbl (name # names) [] = analyze_loop fra wbl names [?r]"
      using g by (simp add: bind_err_def)
    also have "\<dots> = bind_err (analyze_loop fra wbl names []) (\<lambda>r. Inr ([?r] @ r))"
      by (rule Cons.IH)
    finally have r: "analyze_loop fra wbl (name # names) [] =
        bind_err (analyze_loop fra wbl names []) (\<lambda>r. Inr ([?r] @ r))" .
    show ?thesis unfolding l r
      by (cases "analyze_loop fra wbl names []") (simp_all add: bind_err_def)
  qed
qed

lemma analyze_loop_Cons:
  assumes "generate_water_recommendation fra wbl name = Inr (msg, dw)"
  shows "analyze_loop fra wbl (name # names) [] =
     bind_err (analyze_loop fra wbl names [])
       (\<lambda>r. Inr (\<lparr>village = name, recommendation = msg, distance_to_water = dw\<rparr> # r))"
proof -
  have "analyze_loop fra wbl (name # names) [] =
      analyze_loop fra wbl names [\<lparr>village = name, recommendation = msg, distance_to_water = dw\<rparr>]"
    using assms by (simp add: bind_err_def)
  then show ?thesis
    using analyze_loop_acc [of fra wbl names
        "[\<lparr>village = name, recommendation = msg, distance_to_water = dw\<rparr>]"]
    by simp
qed

lemma analyze_loop_raises:
  assumes "generate_water_recommendation fra wbl name = Inl e"
  shows "analyze_loop fra wbl (name # names) [] = Inl e"
  using assms by (simp add: bind_err_def)

lemma analyze_loop_single:
  assumes "generate_water_recommendation fra wbl name = Inr (msg, dw)"
  shows "analyze_loop fra wbl [name] [] =
     Inr [\<lparr>village = name, recommendation = msg, distance_to_water = dw\<rparr>]"
  using assms by (simp add: bind_err_def)

lemma analyze_loop_results:
  assumes "\<forall>n\<in>set names. \<exists>r. generate_water_recommendation fra wbl n = Inr r"
  shows "\<exists>res. analyze_loop fra wbl names [] = Inr res \<and> length res = length names \<and>
     (\<forall>i<length names. village (res ! i) = names ! i \<and>
        analyze_loop fra wbl [names ! i] [] = Inr [res ! i])"
  using assms
proof (induction names)
  case Nil
  show ?case by simp
next
  case (Cons name names)
  obtain msg dw where g: "generate_water_recommendation fra wbl name = Inr (msg, dw)"
    using Cons.prems by fastforce
  have rest: "\<forall>n\<in>set names. \<exists>r. generate_water_recommendation fra wbl n = Inr r"
    using Cons.prems by simp
  let ?r = "\<lparr>village = name, recommendation = msg, distance_to_water = dw\<rparr>"
  from Cons.IH [OF rest] obtain res where res: "analyze_loop fra wbl names [] = Inr res"
    and len: "length res = length names"
    and each: "\<forall>i<length names. village (res ! i) = names ! i \<and>
        analyze_loop fra wbl [names ! i] [] = Inr [res ! i]"
    by blast
  have all: "analyze_loop fra wbl (name # names) [] = Inr (?r # res)"
    using analyze_loop_Cons [OF g, of names] res by (simp add: bind_err_def)
  have one: "analyze_loop fra wbl [name] [] = Inr [?r]"
    using analyze_loop_single [OF g] .
  have "\<forall>i<length (name # names). village ((?r # res) ! i) = (name # names) ! i \<and>
        analyze_loop fra wbl [(name # names) ! i] [] = Inr [(?r # res) ! i]"
  proof (intro allI impI)
    fix i assume i: "i < length (name # names)"
    show "village ((?r # res) ! i) = (name # names) ! i \<and>
        analyze_loop fra wbl [(name # names) ! i] [] = Inr [(?r # res) ! i]"
    proof (cases i)
      case 0
      then show ?thesis using one by simp
    next
      case (Suc j)
      with i have "j < length names" by simp
      with each Suc show ?thesis by simp
    qed
  qed
  with all len show ?case by simp
qed

lemma analyze_loop_fails:
  assumes "\<exists>n\<in>set names. \<exists>e. generate_water_recommendation fra wbl n = Inl e"
  shows "\<exists>e. analyze_loop fra wbl names [] = Inl e"
  using assms
proof (induction names)
  case Nil
  then show ?case by simp
next
  case (Cons name names)
  show ?case
  proof (cases "generate_water_recommendation fra wbl name")
    case (Inl e)
    then show ?thesis using analyze_loop_raises by blast
  next
    case (Inr md)
    obtain msg dw where g: "generate_water_recommendation fra wbl name = Inr (msg, dw)"
      using Inr by (cases md) auto
    from Cons.prems g have "\<exists>n\<in>set names. \<exists>e. generate_water_recommendation fra wbl n = Inl e"
      by auto
    from Cons.IH [OF this] obtain e where "analyze_loop fra wbl names [] = Inl e" by blast
    then show ?thesis using analyze_loop_Cons [OF g, of names] by (simp add: bind_err_def)
  qed
qed

text \<open>
  C6 as stated does not hold: a batch is not always answered with one record per
  input. A registered village opposite a water body makes the distance computation
  raise, and a name that cannot be hashed makes the lookup raise; the handler then
  answers with the error status, and the results of the other records are lost.
\<close>

theorem analyze_one_result_per_record_counterexample:
  "analyze [''Far'' \<mapsto> far_village] [far_water] [Name ''Sonpur'', Name ''Far''] =
     Failure ValueError \<and>
   analyze [''Rampur'' \<mapsto> rampur] [] [Name ''Rampur'', Unhashable] = Failure TypeError"
  by (simp add: analyze_def generate_water_recommendation_def bind_err_def
      get_nearest_water_distance_def far_village_def far_water_def haversine_antipodal)

text \<open>
  C6, amended: a batch in which the recommendation of every record is computed
  without an exception is answered with one result per record, in the order of the
  records; the result at position \<open>i\<close> carries the name of record \<open>i\<close> as its village,
  and it is the result that record gets when it is sent alone. A batch in which the
  recommendation of some record raises is answered with the error status.
\<close>

theorem analyze_one_result_per_record:
  "((\<forall>n\<in>set names. \<exists>r. generate_water_recommendation fra wbl n = Inr r) \<longrightarrow>
      (\<exists>res. analyze fra wbl names = Success res \<and> length res = length names \<and>
         (\<forall>i<length names. village (res ! i) = names ! i \<and>
            analyze fra wbl [names ! i] = Success [res ! i]))) \<and>
   ((\<exists>n\<in>set names. \<exists>e. generate_water_recommendation fra wbl n = Inl e) \<longrightarrow>
      (\<exists>e. analyze fra wbl names = Failure e))"
proof (intro conjI impI)
  assume "\<forall>n\<in>set names. \<exists>r. generate_water_recommendation fra wbl n = Inr r"
  from analyze_loop_results [OF this] obtain res where
    res: "analyze_loop fra wbl names [] = Inr res"
    and len: "length res = length names"
    and each: "\<forall>i<length names. village (res ! i) = names ! i \<and>
        analyze_loop fra wbl [names ! i] [] = Inr [res ! i]"
    by blast
  have "analyze fra wbl names = Success res" using res by (simp add: analyze_def)
  moreover have "\<forall>i<length names. village (res ! i) = names ! i \<and>
        analyze fra wbl [names ! i] = Success [res ! i]"
    using each by (simp add: analyze_def)
  ultimately show "\<exists>res. analyze fra wbl names = Success res \<and> length res = length names \<and>
         (\<forall>i<length names. village (res ! i) = names ! i \<and>
            analyze fra wbl [names ! i] = Success [res ! i])"
    using len by blast
next
  assume "\<exists>n\<in>set names. \<exists>e. generate_water_recommendation fra wbl n = Inl e"
  from analyze_loop_fails [OF this] obtain e where "analyze_loop fra wbl names [] = Inl e"
    by blast
  then show "\<exists>e. analyze fra wbl names = Failure e" by (simp add: analyze_def)
qed

theorem analyze_one_result_per_record_witness:
  "analyze [''Rampur'' \<mapsto> rampur] [] [Name ''Sonpur'', Name ''Rampur'', NoName] =
     Success [\<lparr>village = Name ''Sonpur'', recommendation = no_data_msg, distance_to_water = NA\<rparr>,
              \<lparr>village = Name ''Rampur'', recommendation = critical_msg,
                 distance_to_water = Distance PosInf\<rparr>,
              \<lparr>village = NoName, recommendation = no_data_msg, distance_to_water = NA\<rparr>] \<and>
   (\<exists>e. analyze [''Rampur'' \<mapsto> rampur] [] [Name ''Rampur'', Unhashable] = Failure e)"
proof -
  let ?fra = "[''Rampur'' \<mapsto> rampur]"
  let ?names = "[Name ''Sonpur'', Name ''Rampur'', NoName]"
  have g0: "generate_water_recommendation ?fra [] (Name ''Sonpur'') = Inr (no_data_msg, NA)"
    by (simp add: generate_water_recommendation_def bind_err_def)
  have g1: "generate_water_recommendation ?fra [] (Name ''Rampur'') =
      Inr (critical_msg, Distance PosInf)"
    by (simp add: generate_water_recommendation_def bind_err_def
        get_nearest_water_distance_def recommendation_text_def)
  have g2: "generate_water_recommendation ?fra [] NoName = Inr (no_data_msg, NA)"
    by (simp add: generate_water_recommendation_def bind_err_def)
  have g3: "generate_water_recommendation ?fra [] Unhashable = Inl TypeError"
    by (simp add: generate_water_recommendation_def bind_err_def)
  have s0: "analyze ?fra [] [Name ''Sonpur''] =
      Success [\<lparr>village = Name ''Sonpur'', recommendation = no_data_msg, distance_to_water = NA\<rparr>]"
    using g0 by (simp add: analyze_def bind_err_def)
  have s1: "analyze ?fra [] [Name ''Rampur''] =
      Success [\<lparr>village = Name ''Rampur'', recommendation = critical_msg,
                 distance_to_water = Distance PosInf\<rparr>]"
    using g1 by (simp add: analyze_def bind_err_def)
  have s2: "analyze ?fra [] [NoName] =
      Success [\<lparr>village = NoName, recommendation = no_data_msg, distance_to_water = NA\<rparr>]"
    using g2 by (simp add: analyze_def bind_err_def)
  have all: "\<forall>n\<in>set ?names. \<exists>r. generate_water_recommendation ?fra [] n = Inr r"
    using g0 g1 g2 by simp
  from analyze_one_result_per_record [of ?names ?fra "[]"] all obtain res where
    res: "analyze ?fra [] ?names = Success res" and len: "length res = length ?names"
    and each: "\<forall>i<length ?names. village (res ! i) = ?names ! i \<and>
        analyze ?fra [] [?names ! i] = Success [res ! i]"
    by blast
  have "analyze ?fra [] [?names ! 0] = Success [res ! 0]"
    and "analyze ?fra [] [?names ! 1] = Success [res ! 1]"
    and "analyze ?fra [] [?names ! 2] = Success [res ! 2]"
    using each [THEN spec, of 0] each [THEN spec, of 1] each [THEN spec, of 2] by simp_all
  with s0 s1 s2 have e: "res ! 0 = \<lparr>village = Name ''Sonpur'', recommendation = no_data_msg, distance_to_water = NA\<rparr>"
    "res ! 1 = \<lparr>village = Name ''Rampur'', recommendation = critical_msg,
                 distance_to_water = Distance PosInf\<rparr>"
    "res ! 2 = \<lparr>village = NoName, recommendation = no_data_msg, distance_to_water = NA\<rparr>"
    by simp_all
  from len have "length res = 3" by simp
  then obtain a b c where abc: "res = [a, b, c]"
    by (metis (no_types, opaque_lifting) length_0_conv length_Suc_conv numeral_3_eq_3)
  have bad: "\<exists>n\<in>set [Name ''Rampur'', Unhashable]. \<exists>e.
      generate_water_recommendation ?fra [] n = Inl e"
    using g3 by simp
  from analyze_one_result_per_record [of "[Name ''Rampur'', Unhashable]" ?fra "[]"] bad
  have f: "\<exists>e. analyze ?fra [] [Name ''Rampur'', Unhashable] = Failure e" by blast
  from abc e res f show ?thesis by simp
qed

lemma analyze_loop_append:
  "analyze_loop fra wbl (xs @ ys) [] =
     bind_err (analyze_loop fra wbl xs []) (\<lambda>rx.
     bind_err (analyze_loop fra wbl ys []) (\<lambda>ry. Inr (rx @ ry)))"
proof (induction xs)
  case Nil
  show ?case by (cases "analyze_loop fra wbl ys []") (simp_all add: bind_err_def)
next
  case (Cons name xs)
  show ?case
  proof (cases "generate_water_recommendation fra wbl name")
    case (Inl e)
    then show ?thesis by (simp add: bind_err_def)
  next
    case (Inr md)
    obtain msg dw where g: "generate_water_recommendation fra wbl name = Inr (msg, dw)"
      using Inr by (cases md) auto
    show ?thesis
      using analyze_loop_Cons [OF g, of "xs @ ys"] analyze_loop_Cons [OF g, of xs] Cons.IH
      by (cases "analyze_loop fra wbl xs []"; cases "analyze_loop fra wbl ys []")
        (simp_all add: bind_err_def)
  qed
qed

text \<open>
  C7: a name that is not a key of the village mapping (the lookup compares the strings
  as they are, so a stored name in another case is not found) gets the field-survey
  message with the distance \<^verbatim>\<open>"N/A"\<close>, and in a batch the results of the records before
  and after it are the ones they get without it.
\<close>

theorem unknown_village_is_contained:
  assumes "fra_get fra name = Inr None"
    and "analyze fra wbl before = Success rb"
    and "analyze fra wbl after = Success ra"
  shows "generate_water_recommendation fra wbl name = Inr (no_data_msg, NA) \<and>
     analyze fra wbl (before @ name # after) =
       Success (rb @ \<lparr>village = name, recommendation = no_data_msg, distance_to_water = NA\<rparr> # ra)"
proof -
  have g: "generate_water_recommendation fra wbl name = Inr (no_data_msg, NA)"
    using assms(1) by (rule generate_unknown)
  have b: "analyze_loop fra wbl before [] = Inr rb"
    using assms(2) by (simp add: analyze_def split: sum.splits)
  have a: "analyze_loop fra wbl after [] = Inr ra"
    using assms(3) by (simp add: analyze_def split: sum.splits)
  have "analyze_loop fra wbl (name # after) [] =
      Inr (\<lparr>village = name, recommendation = no_data_msg, distance_to_water = NA\<rparr> # ra)"
    using analyze_loop_Cons [OF g, of after] a by (simp add: bind_err_def)
  then have "analyze_loop fra wbl (before @ name # after) [] =
      Inr (rb @ \<lparr>village = name, recommendation = no_data_msg, distance_to_water = NA\<rparr> # ra)"
    using analyze_loop_append [of fra wbl before "name # after"] b by (simp add: bind_err_def)
  then show ?thesis using g by (simp add: analyze_def)
qed

theorem unknown_village_is_contained_witness:
  "fra_get [''Rampur'' \<mapsto> rampur] (Name ''rampur'') = Inr None \<and>
   analyze [''Rampur'' \<mapsto> rampur] [] [Name ''Rampur'', Name ''rampur'', Name ''Rampur''] =
     Success [\<lparr>village = Name ''Rampur'', recommendation = critical_msg,
                 distance_to_water = Distance PosInf\<rparr>,
              \<lparr>village = Name ''rampur'', recommendation = no_data_msg, distance_to_water = NA\<rparr>,
              \<lparr>village = Name ''Rampur'', recommendation = critical_msg,
                 distance_to_water = Distance PosInf\<rparr>]"
proof -
  let ?fra = "[''Rampur'' \<mapsto> rampur]"
  have u: "fra_get ?fra (Name ''rampur'') = Inr None" by simp
  have s: "analyze ?fra [] [Name ''Rampur''] =
      Success [\<lparr>village = Name ''Rampur'', recommendation = critical_msg,
                 distance_to_water = Distance PosInf\<rparr>]"
    by (simp add: analyze_def generate_water_recommendation_def bind_err_def
        get_nearest_water_distance_def recommendation_text_def)
  from unknown_village_is_contained [OF u s s] u show ?thesis by simp
qed

end
